theory Spec2Isabelle
  imports Main "HOL-Library.Sublist"
begin

section \<open>Python strings\<close>

text \<open>
  A Python \<open>str\<close> is modelled as a \<open>string\<close> whose characters are the code points
  below 256. \<open>s.endswith(t)\<close> is \<open>suffix t s\<close>, \<open>s.startswith(t)\<close> is \<open>prefix t s\<close>
  and \<open>t in s\<close> is \<open>sublist t s\<close>.
\<close>

definition lower_char :: "char \<Rightarrow> char" where
  \<comment> \<open>\<open>str.lower\<close> on one code point below 256: A-Z and the Latin-1 capitals
      (0xC0-0xDE without the multiplication sign 0xD7) move up by 32, that is, bit 5 is set.\<close>
  "lower_char c = (let n = (of_char c :: nat) in
     if (65 \<le> n \<and> n \<le> 90) \<or> (192 \<le> n \<and> n \<le> 222 \<and> n \<noteq> 215)
     then (case c of Char b0 b1 b2 b3 b4 b5 b6 b7 \<Rightarrow> Char b0 b1 b2 b3 b4 True b6 b7)
     else c)"

definition py_lower :: "string \<Rightarrow> string" where
  "py_lower s = map lower_char s"

definition endswith_any :: "string \<Rightarrow> string list \<Rightarrow> bool" where
  \<comment> \<open>\<open>s.endswith((t1, ..., tn))\<close>\<close>
  "endswith_any s sufs = list_ex (\<lambda>suf. suffix suf s) sufs"

function py_replace :: "string \<Rightarrow> string \<Rightarrow> string \<Rightarrow> string" where
  \<comment> \<open>\<open>s.replace(old, new)\<close>: every occurrence of \<open>old\<close>, found from the left and not
      overlapping, becomes \<open>new\<close>; an empty \<open>old\<close> matches before every character and at
      the end.\<close>
  "py_replace old new [] = (if old = [] then new else [])"
| "py_replace old new (c # cs) =
     (if old = [] then new @ c # py_replace old new cs
      else if prefix old (c # cs) then new @ py_replace old new (drop (length old) (c # cs))
      else c # py_replace old new cs)"
  by pat_completeness auto
termination
  by (relation "measure (\<lambda>(old, new, s). length s)") auto

fun rfind :: "char \<Rightarrow> string \<Rightarrow> int" where
  \<comment> \<open>\<open>s.rfind(c)\<close>: the index of the last \<open>c\<close>, or -1\<close>
  "rfind c [] = -1"
| "rfind c (x # xs) =
     (let r = rfind c xs in if 0 \<le> r then r + 1 else if x = c then 0 else -1)"

function splitext_loop :: "string \<Rightarrow> nat \<Rightarrow> nat \<Rightarrow> string \<times> string" where
  \<comment> \<open>the \<open>while filenameIndex < dotIndex\<close> loop of \<open>genericpath._splitext\<close>: the name is
      split at the last dot unless only dots stand before it\<close>
  "splitext_loop p filenameIndex dotIndex =
     (if filenameIndex < dotIndex
      then (if take 1 (drop filenameIndex p) \<noteq> ''.''
            then (take dotIndex p, drop dotIndex p)
            else splitext_loop p (filenameIndex + 1) dotIndex)
      else (p, []))"
  by pat_completeness auto
termination
  by (relation "measure (\<lambda>(p, filenameIndex, dotIndex). dotIndex - filenameIndex)") auto

definition splitext :: "string \<Rightarrow> string \<times> string" where
  \<comment> \<open>\<open>os.path.splitext\<close> of posixpath\<close>
  "splitext p =
     (let sepIndex = rfind CHR ''/'' p; dotIndex = rfind CHR ''.'' p in
      if sepIndex < dotIndex then splitext_loop p (nat (sepIndex + 1)) (nat dotIndex)
      else (p, []))"

definition os_path_join :: "string \<Rightarrow> string \<Rightarrow> string" where
  \<comment> \<open>\<open>os.path.join(a, b)\<close> of posixpath\<close>
  "os_path_join a b =
     (if prefix ''/'' b then b
      else if a = [] \<or> suffix ''/'' a then a @ b
      else a @ ''/'' @ b)"

definition digit_char :: "nat \<Rightarrow> char" where
  "digit_char d = ''0123456789'' ! d"

function show_nat :: "nat \<Rightarrow> string" where
  \<comment> \<open>\<open>str(n)\<close> of a non-negative int\<close>
  "show_nat n = (if n < 10 then [digit_char n] else show_nat (n div 10) @ [digit_char (n mod 10)])"
  by pat_completeness auto
termination
  by (relation "measure (\<lambda>n. n)") auto

declare show_nat.simps [simp del] splitext_loop.simps [simp del]

definition is_space :: "char \<Rightarrow> bool" where
  \<comment> \<open>the bytes \<open>bytes.strip()\<close> removes: space, tab, newline, return, VT, FF\<close>
  "is_space c = (c \<in> set [CHR '' '', CHR 0x09, CHR 0x0A, CHR 0x0D, CHR 0x0B, CHR 0x0C])"

definition py_strip :: "string \<Rightarrow> string" where
  "py_strip s = rev (dropWhile is_space (rev (dropWhile is_space s)))"

fun py_split :: "char \<Rightarrow> string \<Rightarrow> string list" where
  \<comment> \<open>\<open>s.split(sep)\<close> with a separator of one character: empty pieces are kept\<close>
  "py_split sep [] = [[]]"
| "py_split sep (c # cs) =
     (if c = sep then [] # py_split sep cs
      else (case py_split sep cs of w # ws \<Rightarrow> (c # w) # ws | [] \<Rightarrow> [[c]]))"

fun join :: "string \<Rightarrow> string list \<Rightarrow> string" where
  \<comment> \<open>\<open>sep.join(xs)\<close>\<close>
  "join sep [] = []"
| "join sep [x] = x"
| "join sep (x # y # ys) = x @ sep @ join sep (y # ys)"

section \<open>JSON values and the Python operations on them\<close>

text \<open>
  What \<open>json.loads\<close> returns. An object is an association list in the order of the text; a
  Python \<open>dict\<close> holds every key once, so the keys of a well-formed object are distinct.
  A \<open>float\<close> behaves in this program as the \<open>int\<close> of the same truth value does (it is
  neither a string nor a container), so numbers are integers.
\<close>

datatype json =
    JNull
  | JBool bool
  | JInt int
  | JStr string
  | JArr "json list"
  | JObj "(string \<times> json) list"

datatype exn =
    AttributeError
  | TypeError
  | KeyError
  | IndexError
  | OSError
  | JSONDecodeError
  | BinasciiError

definition ebind :: "exn + 'a \<Rightarrow> ('a \<Rightarrow> exn + 'b) \<Rightarrow> exn + 'b" where
  \<comment> \<open>sequencing: the first exception raised ends the computation\<close>
  "ebind m f = (case m of Inl e \<Rightarrow> Inl e | Inr v \<Rightarrow> f v)"

fun py_truthy :: "json \<Rightarrow> bool" where
  \<comment> \<open>\<open>bool(x)\<close>\<close>
  "py_truthy JNull = False"
| "py_truthy (JBool b) = b"
| "py_truthy (JInt n) = (n \<noteq> 0)"
| "py_truthy (JStr s) = (s \<noteq> [])"
| "py_truthy (JArr xs) = (xs \<noteq> [])"
| "py_truthy (JObj kvs) = (kvs \<noteq> [])"

fun py_in :: "string \<Rightarrow> json \<Rightarrow> exn + bool" where
  \<comment> \<open>\<open>"k" in x\<close>: a key of a dict, an element of a list, a substring of a str\<close>
  "py_in k (JObj kvs) = Inr (map_of kvs k \<noteq> None)"
| "py_in k (JArr xs) = Inr (List.member xs (JStr k))"
| "py_in k (JStr s) = Inr (sublist k s)"
| "py_in k _ = Inl TypeError"

fun py_get :: "json \<Rightarrow> string \<Rightarrow> json \<Rightarrow> exn + json" where
  \<comment> \<open>\<open>x.get("k", default)\<close>: only a dict has \<open>get\<close>\<close>
  "py_get (JObj kvs) k dflt = Inr (case map_of kvs k of Some v \<Rightarrow> v | None \<Rightarrow> dflt)"
| "py_get _ k dflt = Inl AttributeError"

fun py_getitem :: "json \<Rightarrow> string \<Rightarrow> exn + json" where
  \<comment> \<open>\<open>x["k"]\<close>: a str and a list take integer indices only\<close>
  "py_getitem (JObj kvs) k = (case map_of kvs k of Some v \<Rightarrow> Inr v | None \<Rightarrow> Inl KeyError)"
| "py_getitem _ k = Inl TypeError"

fun py_first :: "json \<Rightarrow> exn + json" where
  \<comment> \<open>\<open>x[0]\<close>; the keys of a JSON object are strings, so \<open>0\<close> is never one\<close>
  "py_first (JArr []) = Inl IndexError"
| "py_first (JArr (x # xs)) = Inr x"
| "py_first (JStr []) = Inl IndexError"
| "py_first (JStr (c # cs)) = Inr (JStr [c])"
| "py_first (JObj kvs) = Inl KeyError"
| "py_first _ = Inl TypeError"

fun py_iter :: "json \<Rightarrow> exn + json list" where
  \<comment> \<open>\<open>for part in x\<close>: the elements of a list, the characters of a str, the keys of a dict\<close>
  "py_iter (JArr xs) = Inr xs"
| "py_iter (JStr s) = Inr (map (\<lambda>c. JStr [c]) s)"
| "py_iter (JObj kvs) = Inr (map (\<lambda>kv. JStr (fst kv)) kvs)"
| "py_iter _ = Inl TypeError"

fun py_str_replace :: "json \<Rightarrow> string \<Rightarrow> string \<Rightarrow> exn + string" where
  \<comment> \<open>\<open>x.replace(old, new)\<close>: only a str has \<open>replace\<close>\<close>
  "py_str_replace (JStr s) old new = Inr (py_replace old new s)"
| "py_str_replace _ old new = Inl AttributeError"

section \<open>Selection of the input files\<close>

definition sync_accepts :: "string \<Rightarrow> bool" where
  \<comment> \<open>main.py line 77 and single\_retouch.py line 102\<close>
  "sync_accepts filename =
     endswith_any filename [''.jpg'', ''.png'', ''.jpeg'', ''.JPG'', ''.PNG'', ''.JPEG'']"

definition upload_accepts :: "string \<Rightarrow> bool" where
  \<comment> \<open>batch\_retouch.py line 61\<close>
  "upload_accepts f = endswith_any (py_lower f) [''.jpg'', ''.jpeg'', ''.png'', ''.webp'']"

definition sync_image_files :: "string list \<Rightarrow> string list" where
  \<comment> \<open>single\_retouch.py lines 100-103, over the listing of the directory\<close>
  "sync_image_files listing = filter sync_accepts listing"

definition upload_files :: "string list \<Rightarrow> string list" where
  \<comment> \<open>batch\_retouch.py lines 58-62, over the listing of the directory\<close>
  "upload_files listing = filter upload_accepts listing"

section \<open>The synchronous entry points: main.py and single\_retouch.py\<close>

text \<open>
  A \<open>pathlib.Path\<close> on a POSIX system is modelled by its \<open>parts\<close>: the root (\<open>/\<close> or
  \<open>//\<close>) first if the path is absolute, then the segments that are neither empty nor a
  single dot.
\<close>

definition splitroot :: "string \<Rightarrow> string \<times> string" where
  \<comment> \<open>\<open>posixpath.splitroot\<close> without the drive: the root and the rest\<close>
  "splitroot p =
     (if take 1 p \<noteq> ''/'' then ([], p)
      else if take 1 (drop 1 p) \<noteq> ''/'' \<or> take 1 (drop 2 p) = ''/'' then (''/'', drop 1 p)
      else (take 2 p, drop 2 p))"

definition path_parts :: "string \<Rightarrow> string list" where
  \<comment> \<open>\<open>Path(path).parts\<close>\<close>
  "path_parts path =
     (if path = [] then []
      else (case splitroot path of
              (root, rel) \<Rightarrow>
                (let tail = filter (\<lambda>x. x \<noteq> [] \<and> x \<noteq> ''.'') (py_split CHR ''/'' rel)
                 in if root \<noteq> [] then root # tail else tail)))"

definition path_str :: "string list \<Rightarrow> string" where
  \<comment> \<open>\<open>str(path)\<close>: the root, the segments joined by \<open>/\<close>, and \<open>.\<close> for the empty path\<close>
  "path_str parts =
     (case parts of
        [] \<Rightarrow> ''.''
      | p # ps \<Rightarrow> if prefix ''/'' p then p @ join ''/'' ps else join ''/'' (p # ps))"

definition clean_segment :: "string \<Rightarrow> bool" where
  \<comment> \<open>a segment as it stands in the parts of a path after the root\<close>
  "clean_segment seg \<longleftrightarrow> seg \<noteq> [] \<and> seg \<noteq> ''.'' \<and> CHR ''/'' \<notin> set seg"

definition joinpath :: "string list \<Rightarrow> string list \<Rightarrow> string list" where
  \<comment> \<open>\<open>base.joinpath(*segments)\<close>: an absolute segment replaces what stands before it\<close>
  "joinpath base segments =
     foldl (\<lambda>acc seg. if prefix ''/'' seg then path_parts seg else acc @ path_parts seg)
       base segments"

fun index_of :: "'a \<Rightarrow> 'a list \<Rightarrow> nat" where
  \<comment> \<open>\<open>xs.index(x)\<close> for an \<open>x\<close> that occurs in \<open>xs\<close>\<close>
  "index_of x [] = 0"
| "index_of x (y # ys) = (if x = y then 0 else Suc (index_of x ys))"

definition output_dir :: "string \<Rightarrow> string \<Rightarrow> string list" where
  \<comment> \<open>single\_retouch.py lines 76-86\<close>
  "output_dir raw_dir processed_dir =
     (let raw_path = path_parts raw_dir;
          processed_base = path_parts processed_dir;
          raw_parts = raw_path
      in if ''raw'' \<in> set raw_parts
         then (let raw_idx = index_of ''raw'' raw_parts;
                   subdir_parts = drop (raw_idx + 1) raw_parts
               in joinpath processed_base subdir_parts)
         else processed_base)"

definition path_name :: "string \<Rightarrow> string" where
  \<comment> \<open>\<open>Path(p).name\<close>: the last segment, the root not counted\<close>
  "path_name p =
     (let parts = path_parts p
      in if parts = [] \<or> (length parts = 1 \<and> prefix ''/'' (hd parts)) then [] else last parts)"

definition path_stem :: "string \<Rightarrow> string" where
  \<comment> \<open>\<open>Path(p).stem\<close>: the name without its last suffix; a dot at either end of the name
      starts no suffix\<close>
  "path_stem p =
     (let name = path_name p; i = rfind CHR ''.'' name
      in if 0 < i \<and> i < int (length name) - 1 then take (nat i) name else name)"

definition single_output_path :: "string \<Rightarrow> string \<Rightarrow> string \<Rightarrow> string" where
  \<comment> \<open>single\_retouch.py line 128\<close>
  "single_output_path raw_dir processed_dir filename =
     os_path_join (path_str (output_dir raw_dir processed_dir))
       (''retouched_'' @ path_stem filename @ ''.png'')"

definition main_output_path :: "string \<Rightarrow> string \<Rightarrow> string" where
  \<comment> \<open>main.py lines 99-101\<close>
  "main_output_path processed_dir filename = os_path_join processed_dir (''retouched_'' @ filename)"

section \<open>The batch submitter: batch\_retouch.py\<close>

definition GCS_INPUT_PATH :: string where
  "GCS_INPUT_PATH = ''gs://gemini-image-retouch/raw/''"

definition MODEL_ID :: string where
  "MODEL_ID = ''models/gemini-2.5-flash''"

definition request_line :: "string \<Rightarrow> string \<Rightarrow> json" where
  \<comment> \<open>lines 84-104: the dict built for one image\<close>
  "request_line img_name prompt =
     JObj [(''custom_id'', JStr (''retouch_'' @ img_name)),
           (''method'', JStr ''POST''),
           (''request'',
            JObj [(''model'', JStr MODEL_ID),
                  (''contents'',
                   JArr [JObj [(''parts'', JArr [JObj [(''text'', JStr prompt)]])],
                         JObj [(''parts'',
                                JArr [JObj [(''file_data'',
                                            JObj [(''mime_type'', JStr ''image/jpeg''),
                                                  (''file_uri'', JStr (GCS_INPUT_PATH @ img_name))])]])]]),
                  (''generation_config'',
                   JObj [(''response_modalities'', JArr [JStr ''IMAGE''])])])]"

definition show_int :: "int \<Rightarrow> string" where
  \<comment> \<open>\<open>str(n)\<close> of an int\<close>
  "show_int n = (if n < 0 then ''-'' @ show_nat (nat (- n)) else show_nat (nat n))"

definition hex_digit :: "nat \<Rightarrow> char" where
  "hex_digit d = ''0123456789abcdef'' ! d"

definition escape_char :: "char \<Rightarrow> string" where
  \<comment> \<open>\<open>json.encoder.py_encode_basestring_ascii\<close> on one code point below 256: the quote,
      the backslash and the control characters with a short escape; every other character
      outside space..tilde as \<open>\u00XX\<close>\<close>
  "escape_char c =
     (let n = (of_char c :: nat) in
      if c = CHR 0x22 then [CHR 0x5C, CHR 0x22]
      else if c = CHR 0x5C then [CHR 0x5C, CHR 0x5C]
      else if c = CHR 0x0A then [CHR 0x5C, CHR ''n'']
      else if c = CHR 0x0D then [CHR 0x5C, CHR ''r'']
      else if c = CHR 0x09 then [CHR 0x5C, CHR ''t'']
      else if c = CHR 0x08 then [CHR 0x5C, CHR ''b'']
      else if c = CHR 0x0C then [CHR 0x5C, CHR ''f'']
      else if 32 \<le> n \<and> n \<le> 126 then [c]
      else [CHR 0x5C, CHR ''u'', CHR ''0'', CHR ''0'', hex_digit (n div 16), hex_digit (n mod 16)])"

definition encode_str :: "string \<Rightarrow> string" where
  "encode_str s = [CHR 0x22] @ concat (map escape_char s) @ [CHR 0x22]"

fun json_dumps :: "json \<Rightarrow> string" where
  \<comment> \<open>\<open>json.dumps\<close> with its defaults: the separators \<open>", "\<close> and \<open>": "\<close>, ASCII only\<close>
  "json_dumps JNull = ''null''"
| "json_dumps (JBool b) = (if b then ''true'' else ''false'')"
| "json_dumps (JInt n) = show_int n"
| "json_dumps (JStr s) = encode_str s"
| "json_dumps (JArr xs) = ''['' @ join '', '' (map json_dumps xs) @ '']''"
| "json_dumps (JObj kvs) =
     ''{'' @ join '', '' (map (\<lambda>kv. encode_str (fst kv) @ '': '' @ json_dumps (snd kv)) kvs) @ ''}''"

definition member_dumps :: "string \<times> json \<Rightarrow> string" where
  \<comment> \<open>the text of one member of an object in \<open>json_dumps\<close>\<close>
  "member_dumps kv = encode_str (fst kv) @ '': '' @ json_dumps (snd kv)"

definition create_batch_file :: "string list \<Rightarrow> string \<Rightarrow> string" where
  \<comment> \<open>lines 79-105: the content of \<open>batch_requests.jsonl\<close> once the file is closed; opening
      with \<open>"w"\<close> empties it first\<close>
  "create_batch_file image_names prompt =
     concat (map (\<lambda>img_name. json_dumps (request_line img_name prompt) @ ''\<newline>'') image_names)"

datatype action =
    UploadBlob string
  | WriteManifest string
  | SubmitJob

definition upload_images_to_gcs :: "string list \<Rightarrow> string list \<times> action list" where
  \<comment> \<open>lines 58-74, over the listing of the local directory: the files returned and the
      uploads made\<close>
  "upload_images_to_gcs listing = (let files = upload_files listing in (files, map UploadBlob files))"

definition batch_main :: "string list \<Rightarrow> string \<Rightarrow> action list" where
  \<comment> \<open>lines 121-159: with no file the script prints a message and leaves through \<open>exit()\<close>\<close>
  "batch_main listing prompt =
     (case upload_images_to_gcs listing of
        (uploaded_files, uploads) \<Rightarrow>
          if uploaded_files = [] then uploads
          else uploads @ [WriteManifest (create_batch_file uploaded_files prompt), SubmitJob])"

section \<open>JSON texts\<close>

text \<open>
  The grammar of RFC 8259 as a relation between a text and the value it denotes, for the
  values of the model: white space around every value, the escapes of a string (a
  \<open>\uXXXX\<close> escape for a code point below 256), integers in decimal.
\<close>

definition json_ws :: "string \<Rightarrow> bool" where
  "json_ws s = list_all (\<lambda>c. c \<in> set [CHR '' '', CHR 0x09, CHR 0x0A, CHR 0x0D]) s"

definition hex_value :: "char \<Rightarrow> nat option" where
  "hex_value c =
     map_of (zip ''0123456789abcdefABCDEF''
                 [0, 1, 2, 3, 4, 5, 6, 7, 8, 9, 10, 11, 12, 13, 14, 15, 10, 11, 12, 13, 14, 15]) c"

inductive str_char :: "string \<Rightarrow> char \<Rightarrow> bool" where
  plain: "c \<noteq> CHR 0x22 \<Longrightarrow> c \<noteq> CHR 0x5C \<Longrightarrow> 32 \<le> (of_char c :: nat) \<Longrightarrow> str_char [c] c"
| quote: "str_char [CHR 0x5C, CHR 0x22] (CHR 0x22)"
| backslash: "str_char [CHR 0x5C, CHR 0x5C] (CHR 0x5C)"
| slash: "str_char [CHR 0x5C, CHR ''/''] (CHR ''/'')"
| backspace: "str_char [CHR 0x5C, CHR ''b''] (CHR 0x08)"
| formfeed: "str_char [CHR 0x5C, CHR ''f''] (CHR 0x0C)"
| newline: "str_char [CHR 0x5C, CHR ''n''] (CHR 0x0A)"
| return: "str_char [CHR 0x5C, CHR ''r''] (CHR 0x0D)"
| tab: "str_char [CHR 0x5C, CHR ''t''] (CHR 0x09)"
| unicode:
    "hex_value h1 = Some a \<Longrightarrow> hex_value h2 = Some b \<Longrightarrow> hex_value h3 = Some c
     \<Longrightarrow> hex_value h4 = Some d \<Longrightarrow> of_char ch = ((a * 16 + b) * 16 + c) * 16 + d
     \<Longrightarrow> str_char [CHR 0x5C, CHR ''u'', h1, h2, h3, h4] ch"

inductive str_body :: "string \<Rightarrow> string \<Rightarrow> bool" where
  empty: "str_body [] []"
| char: "str_char t c \<Longrightarrow> str_body b s \<Longrightarrow> str_body (t @ b) (c # s)"

inductive json_text :: "string \<Rightarrow> json \<Rightarrow> bool"
  and elements_text :: "string \<Rightarrow> json list \<Rightarrow> bool"
  and members_text :: "string \<Rightarrow> (string \<times> json) list \<Rightarrow> bool" where
  null: "json_text ''null'' JNull"
| true: "json_text ''true'' (JBool True)"
| false: "json_text ''false'' (JBool False)"
| number: "json_text (show_int n) (JInt n)"
| string: "str_body b s \<Longrightarrow> json_text ([CHR 0x22] @ b @ [CHR 0x22]) (JStr s)"
| array: "elements_text b xs \<Longrightarrow> json_text (''['' @ b @ '']'') (JArr xs)"
| object: "members_text b kvs \<Longrightarrow> json_text (''{'' @ b @ ''}'') (JObj kvs)"
| space: "json_text t v \<Longrightarrow> json_ws a \<Longrightarrow> json_ws b \<Longrightarrow> json_text (a @ t @ b) v"
| no_element: "json_ws a \<Longrightarrow> elements_text a []"
| one_element: "json_text t v \<Longrightarrow> elements_text t [v]"
| more_elements:
    "json_text t v \<Longrightarrow> elements_text b (x # xs) \<Longrightarrow> elements_text (t @ '','' @ b) (v # x # xs)"
| no_member: "json_ws a \<Longrightarrow> members_text a []"
| one_member:
    "json_text k (JStr key) \<Longrightarrow> json_text t v \<Longrightarrow> members_text (k @ '':'' @ t) [(key, v)]"
| more_members:
    "json_text k (JStr key) \<Longrightarrow> json_text t v \<Longrightarrow> members_text b (m # ms)
     \<Longrightarrow> members_text (k @ '':'' @ t @ '','' @ b) ((key, v) # m # ms)"

definition matches_request_schema :: "string \<Rightarrow> json \<Rightarrow> bool" where
  \<comment> \<open>the request line schema of the consuming service, field for field, with the
      instruction \<open>text\<close>\<close>
  "matches_request_schema text j \<longleftrightarrow>
     (\<exists>custom_id model mime_type file_uri.
        j = JObj [(''custom_id'', JStr custom_id),
                  (''method'', JStr ''POST''),
                  (''request'',
                   JObj [(''model'', JStr model),
                         (''contents'',
                          JArr [JObj [(''parts'', JArr [JObj [(''text'', JStr text)]])],
                                JObj [(''parts'',
                                       JArr [JObj [(''file_data'',
                                                   JObj [(''mime_type'', JStr mime_type),
                                                         (''file_uri'', JStr file_uri)])]])]]),
                         (''generation_config'',
                          JObj [(''response_modalities'', JArr [JStr ''IMAGE''])])])])"

section \<open>The result fetcher: check\_batch.py\<close>

text \<open>
  The library calls and the file system are the environment of the parser: \<open>loads\<close> is
  \<open>json.loads\<close> on one line (\<open>None\<close> when it raises), \<open>b64decode\<close> is \<open>base64.b64decode\<close>
  on a str (\<open>None\<close> when it raises), and \<open>can_open\<close> tells whether \<open>open(path, "wb")\<close>
  succeeds.
\<close>

record env =
  loads :: "string \<Rightarrow> json option"
  b64decode :: "string \<Rightarrow> string option"
  can_open :: "string \<Rightarrow> bool"

datatype event =
    ErrorFor json json
  | NoCandidates json
  | Saved string
  | Failed nat exn

text \<open>
  The state the loop changes: \<open>files\<close> lists the writes in the order they happen (the path
  and the bytes written; a later write to the same path replaces the file), \<open>log\<close> the
  messages printed.
\<close>

record out_state =
  files :: "(string \<times> string) list"
  success_count :: nat
  log :: "event list"

definition init_state :: out_state where
  "init_state = \<lparr>files = [], success_count = 0, log = []\<rparr>"

definition OUTPUT_DIR :: string where
  "OUTPUT_DIR = ''./data/processed''"

definition py_b64decode :: "env \<Rightarrow> json \<Rightarrow> exn + string" where
  \<comment> \<open>\<open>base64.b64decode(x)\<close>: a value that is no str is refused\<close>
  "py_b64decode e x =
     (case x of
        JStr s \<Rightarrow> (case b64decode e s of Some bytes \<Rightarrow> Inr bytes | None \<Rightarrow> Inl BinasciiError)
      | _ \<Rightarrow> Inl TypeError)"

definition out_path :: "string \<Rightarrow> string \<Rightarrow> string" where
  \<comment> \<open>lines 108-110: the path written for a cleaned identifier and an extension\<close>
  "out_path base_name ext =
     (let name_part = fst (splitext base_name);
          out_name = name_part @ ''_retouched'' @ ext
      in os_path_join OUTPUT_DIR out_name)"

definition part_output :: "json \<Rightarrow> json \<Rightarrow> exn + (string \<times> json)" where
  \<comment> \<open>lines 95-106: the output path and the payload of a part that has \<open>inline_data\<close>\<close>
  "part_output custom_id part =
     ebind (py_getitem part ''inline_data'') (\<lambda>inline_data.
     ebind (py_get inline_data ''mime_type'' (JStr ''image/png'')) (\<lambda>mime_type.
     ebind (py_getitem inline_data ''data'') (\<lambda>data_b64.
     ebind (py_in ''jpeg'' mime_type) (\<lambda>is_jpeg.
     ebind (py_str_replace custom_id ''retouch_'' []) (\<lambda>base_name.
       let ext = (if is_jpeg then ''.jpg'' else ''.png'')
       in Inr (out_path base_name ext, data_b64))))))"

definition save_part :: "env \<Rightarrow> json \<Rightarrow> json \<Rightarrow> out_state \<Rightarrow> exn option \<times> out_state" where
  \<comment> \<open>lines 93-116, the body of \<open>for part in parts\<close>: the exception that leaves it, if any,
      and the state. \<open>open\<close> truncates the file before the payload is decoded.\<close>
  "save_part e custom_id part st =
     (case py_in ''inline_data'' part of
        Inl x \<Rightarrow> (Some x, st)
      | Inr False \<Rightarrow> (None, st)
      | Inr True \<Rightarrow>
          (case part_output custom_id part of
             Inl x \<Rightarrow> (Some x, st)
           | Inr (path, data_b64) \<Rightarrow>
               if \<not> can_open e path then (Some OSError, st)
               else (case py_b64decode e data_b64 of
                       Inl x \<Rightarrow> (Some x, st\<lparr>files := files st @ [(path, [])]\<rparr>)
                     | Inr bytes \<Rightarrow>
                         (None, st\<lparr>files := files st @ [(path, bytes)],
                                   success_count := success_count st + 1,
                                   log := log st @ [Saved path]\<rparr>))))"

fun save_parts :: "env \<Rightarrow> json \<Rightarrow> json list \<Rightarrow> out_state \<Rightarrow> exn option \<times> out_state" where
  \<comment> \<open>\<open>for part in parts\<close>: an exception ends the loop\<close>
  "save_parts e custom_id [] st = (None, st)"
| "save_parts e custom_id (part # parts) st =
     (case save_part e custom_id part st of
        (Some x, st') \<Rightarrow> (Some x, st')
      | (None, st') \<Rightarrow> save_parts e custom_id parts st')"

definition line_parts :: "json \<Rightarrow> exn + json list" where
  \<comment> \<open>line 91 and the iteration of line 92: \<open>candidates[0].get("content", {}).get("parts", [])\<close>\<close>
  "line_parts candidates =
     ebind (py_first candidates) (\<lambda>c0.
     ebind (py_get c0 ''content'' (JObj [])) (\<lambda>content.
     ebind (py_get content ''parts'' (JArr [])) (\<lambda>parts.
       py_iter parts)))"

definition line_body :: "env \<Rightarrow> nat \<Rightarrow> string \<Rightarrow> out_state \<Rightarrow> exn option \<times> out_state" where
  \<comment> \<open>lines 63-116, the body of \<open>try\<close> for line \<open>i\<close>\<close>
  "line_body e i line st =
     (case loads e line of
        None \<Rightarrow> (Some JSONDecodeError, st)
      | Some result \<Rightarrow>
     (case py_get result ''custom_id'' (JStr (''image_'' @ show_nat i)) of
        Inl x \<Rightarrow> (Some x, st)
      | Inr custom_id \<Rightarrow>
     (case py_get result ''response'' (JObj []) of
        Inl x \<Rightarrow> (Some x, st)
      | Inr response \<Rightarrow>
     (case py_in ''error'' response of
        Inl x \<Rightarrow> (Some x, st)
      | Inr True \<Rightarrow>
          (case py_getitem response ''error'' of
             Inl x \<Rightarrow> (Some x, st)
           | Inr err \<Rightarrow> (None, st\<lparr>log := log st @ [ErrorFor custom_id err]\<rparr>))
      | Inr False \<Rightarrow>
     (case py_get response ''candidates'' (JArr []) of
        Inl x \<Rightarrow> (Some x, st)
      | Inr candidates \<Rightarrow>
          if \<not> py_truthy candidates
          then (None, st\<lparr>log := log st @ [NoCandidates custom_id]\<rparr>)
          else (case line_parts candidates of
                  Inl x \<Rightarrow> (Some x, st)
                | Inr parts \<Rightarrow> save_parts e custom_id parts st))))))"

definition process_line :: "env \<Rightarrow> nat \<Rightarrow> string \<Rightarrow> out_state \<Rightarrow> out_state" where
  \<comment> \<open>lines 62-119: \<open>except Exception\<close> prints the failure of the line and the loop goes on\<close>
  "process_line e i line st =
     (case line_body e i line st of
        (None, st') \<Rightarrow> st'
      | (Some x, st') \<Rightarrow> st'\<lparr>log := log st' @ [Failed i x]\<rparr>)"

fun process_lines :: "env \<Rightarrow> nat \<Rightarrow> string list \<Rightarrow> out_state \<Rightarrow> out_state" where
  \<comment> \<open>\<open>for i, line in enumerate(lines)\<close>, from index \<open>i\<close> on\<close>
  "process_lines e i [] st = st"
| "process_lines e i (line # rest) st = process_lines e (Suc i) rest (process_line e i line st)"

definition disk :: "out_state \<Rightarrow> string \<Rightarrow> string option" where
  \<comment> \<open>the files left by the writes: a later write to a path replaces the file\<close>
  "disk st = map_of (rev (files st))"

definition parse_results :: "env \<Rightarrow> string \<Rightarrow> out_state" where
  \<comment> \<open>lines 58-119, from the bytes of the result manifest\<close>
  "parse_results e content = process_lines e 0 (py_split CHR 0x0A (py_strip content)) init_state"

section \<open>Well-formed result lines\<close>

text \<open>
  The result line schema of the consuming service, as predicates on what \<open>json.loads\<close>
  returns for a line. Fields beside the named ones are allowed.
\<close>

definition has_inline_data :: "json \<Rightarrow> bool" where
  \<comment> \<open>the test of line 94\<close>
  "has_inline_data part = (py_in ''inline_data'' part = Inr True)"

fun well_formed_part :: "env \<Rightarrow> json \<Rightarrow> bool" where
  \<comment> \<open>a content part: an object; its \<open>inline_data\<close>, if any, is an object with a
      base64 str under \<open>data\<close> and, if any, a str under \<open>mime_type\<close>\<close>
  "well_formed_part e (JObj p) =
     (case map_of p ''inline_data'' of
        None \<Rightarrow> True
      | Some (JObj d) \<Rightarrow>
          (case map_of d ''data'' of Some (JStr b) \<Rightarrow> b64decode e b \<noteq> None | _ \<Rightarrow> False)
          \<and> (case map_of d ''mime_type'' of None \<Rightarrow> True | Some (JStr m) \<Rightarrow> True | _ \<Rightarrow> False)
      | Some _ \<Rightarrow> False)"
| "well_formed_part e _ = False"

definition candidate_line :: "env \<Rightarrow> string \<Rightarrow> (string \<times> json) list \<Rightarrow> json list \<Rightarrow> bool" where
  \<comment> \<open>the line parses to the object \<open>s\<close>, whose response has no \<open>error\<close> and whose first
      candidate has the content parts \<open>ps\<close>\<close>
  "candidate_line e line s ps \<longleftrightarrow>
     (\<exists>r c cs ct.
        loads e line = Some (JObj s)
        \<and> map_of s ''response'' = Some (JObj r) \<and> map_of r ''error'' = None
        \<and> map_of r ''candidates'' = Some (JArr (JObj c # cs))
        \<and> map_of c ''content'' = Some (JObj ct)
        \<and> map_of ct ''parts'' = Some (JArr ps))"

definition image_part :: "env \<Rightarrow> json \<Rightarrow> string \<Rightarrow> string \<Rightarrow> bool" where
  \<comment> \<open>the part carries the inline image \<open>bytes\<close> of MIME type \<open>m\<close>; a part that declares
      none has the type \<open>image/png\<close>\<close>
  "image_part e part m bytes \<longleftrightarrow>
     (\<exists>p d b.
        part = JObj p \<and> map_of p ''inline_data'' = Some (JObj d)
        \<and> map_of d ''data'' = Some (JStr b) \<and> b64decode e b = Some bytes
        \<and> (map_of d ''mime_type'' = Some (JStr m)
             \<or> map_of d ''mime_type'' = None \<and> m = ''image/png''))"

definition success_line ::
  "env \<Rightarrow> string \<Rightarrow> (string \<times> json) list \<Rightarrow> string \<Rightarrow> string \<Rightarrow> bool" where
  \<comment> \<open>a well-formed success line with one part, an inline image\<close>
  "success_line e line s m bytes \<longleftrightarrow>
     (\<exists>part. candidate_line e line s [part] \<and> image_part e part m bytes)"

definition error_line :: "env \<Rightarrow> string \<Rightarrow> json \<Rightarrow> bool" where
  \<comment> \<open>the line parses to an object whose response object has the field \<open>error\<close>\<close>
  "error_line e line err \<longleftrightarrow>
     (\<exists>x r. loads e line = Some (JObj x) \<and> map_of x ''response'' = Some (JObj r)
        \<and> map_of r ''error'' = Some err)"

definition saved_path :: "string \<Rightarrow> string \<Rightarrow> string" where
  \<comment> \<open>the path lines 99-110 give an image of MIME type \<open>m\<close> on a line with the identifier
      \<open>cid\<close>\<close>
  "saved_path cid m =
     out_path (py_replace ''retouch_'' [] cid) (if sublist ''jpeg'' m then ''.jpg'' else ''.png'')"

definition all_inline_parts :: "json \<Rightarrow> json list" where
  \<comment> \<open>every part with inline data among all the candidates of a parsed line\<close>
  "all_inline_parts result =
     (case ebind (py_get result ''response'' (JObj [])) (\<lambda>r. py_get r ''candidates'' (JArr [])) of
        Inr (JArr cands) \<Rightarrow>
          concat (map (\<lambda>c.
            case ebind (py_get c ''content'' (JObj [])) (\<lambda>ct. py_get ct ''parts'' (JArr [])) of
              Inr (JArr ps) \<Rightarrow> filter has_inline_data ps
            | _ \<Rightarrow> []) cands)
      | _ \<Rightarrow> [])"

section \<open>An example environment\<close>

text \<open>
  Lines of a result manifest as the service writes them, with what \<open>json.loads\<close>
  returns for each, the base64 payloads that occur in them, and a file system that opens
  every path.
\<close>

definition line_a_json :: json where
  "line_a_json =
     JObj [(''custom_id'', JStr ''retouch_a.jpg''),
           (''response'', JObj [(''candidates'', JArr [JObj [(''content'', JObj [(''parts'',
              JArr [JObj [(''inline_data'',
                JObj [(''mime_type'', JStr ''image/png''), (''data'', JStr ''aGk='')])]])])]])])]"

definition line_a :: string where
  \<open>line_a = ''{"custom_id": "retouch_a.jpg", "response": {"candidates": [{"content": {"parts": [{"inline_data": {"mime_type": "image/png", "data": "aGk="}}]}}]}}''\<close>

definition line_b_json :: json where
  "line_b_json =
     JObj [(''custom_id'', JStr ''retouch_b.png''),
           (''response'', JObj [(''candidates'', JArr [JObj [(''content'', JObj [(''parts'',
              JArr [JObj [(''inline_data'',
                JObj [(''mime_type'', JStr ''image/jpeg''), (''data'', JStr ''eW8='')])]])])]])])]"

definition line_b :: string where
  \<open>line_b = ''{"custom_id": "retouch_b.png", "response": {"candidates": [{"content": {"parts": [{"inline_data": {"mime_type": "image/jpeg", "data": "eW8="}}]}}]}}''\<close>

definition line_err_json :: json where
  "line_err_json =
     JObj [(''custom_id'', JStr ''retouch_c.jpg''),
           (''response'', JObj [(''error'', JObj [(''code'', JInt 400), (''message'', JStr ''bad image'')])])]"

definition line_err :: string where
  \<open>line_err = ''{"custom_id": "retouch_c.jpg", "response": {"error": {"code": 400, "message": "bad image"}}}''\<close>

definition line_two_json :: json where
  \<comment> \<open>two candidates, an inline image in each\<close>
  "line_two_json =
     JObj [(''custom_id'', JStr ''retouch_d.jpg''),
           (''response'', JObj [(''candidates'',
              JArr [JObj [(''content'', JObj [(''parts'',
                      JArr [JObj [(''inline_data'',
                        JObj [(''mime_type'', JStr ''image/png''), (''data'', JStr ''aGk='')])]])])],
                    JObj [(''content'', JObj [(''parts'',
                      JArr [JObj [(''inline_data'',
                        JObj [(''mime_type'', JStr ''image/jpeg''), (''data'', JStr ''eW8='')])]])])]])])]"

definition line_two :: string where
  \<open>line_two = ''{"custom_id": "retouch_d.jpg", "response": {"candidates": [{"content": {"parts": [{"inline_data": {"mime_type": "image/png", "data": "aGk="}}]}}, {"content": {"parts": [{"inline_data": {"mime_type": "image/jpeg", "data": "eW8="}}]}}]}}''\<close>

definition line_multi_json :: json where
  \<comment> \<open>one candidate with a text part and two inline images\<close>
  "line_multi_json =
     JObj [(''custom_id'', JStr ''retouch_e.jpg''),
           (''response'', JObj [(''candidates'',
              JArr [JObj [(''content'', JObj [(''parts'',
                      JArr [JObj [(''text'', JStr ''done'')],
                            JObj [(''inline_data'',
                              JObj [(''mime_type'', JStr ''image/png''), (''data'', JStr ''aGk='')])],
                            JObj [(''inline_data'',
                              JObj [(''mime_type'', JStr ''image/jpeg''), (''data'', JStr ''eW8='')])]])])]])])]"

definition line_multi :: string where
  \<open>line_multi = ''{"custom_id": "retouch_e.jpg", "response": {"candidates": [{"content": {"parts": [{"text": "done"}, {"inline_data": {"mime_type": "image/png", "data": "aGk="}}, {"inline_data": {"mime_type": "image/jpeg", "data": "eW8="}}]}}]}}''\<close>

definition line_noid_json :: json where
  \<comment> \<open>no \<open>custom_id\<close>\<close>
  "line_noid_json =
     JObj [(''response'', JObj [(''candidates'', JArr [JObj [(''content'', JObj [(''parts'',
              JArr [JObj [(''inline_data'',
                JObj [(''mime_type'', JStr ''image/jpeg''), (''data'', JStr ''eW8='')])]])])]])])]"

definition line_noid :: string where
  \<open>line_noid = ''{"response": {"candidates": [{"content": {"parts": [{"inline_data": {"mime_type": "image/jpeg", "data": "eW8="}}]}}]}}''\<close>

definition line_same_json :: json where
  \<comment> \<open>one candidate with two inline images of the same type\<close>
  "line_same_json =
     JObj [(''custom_id'', JStr ''retouch_s.jpg''),
           (''response'', JObj [(''candidates'',
              JArr [JObj [(''content'', JObj [(''parts'',
                      JArr [JObj [(''inline_data'',
                              JObj [(''mime_type'', JStr ''image/png''), (''data'', JStr ''aGk='')])],
                            JObj [(''inline_data'',
                              JObj [(''mime_type'', JStr ''image/png''), (''data'', JStr ''eW8='')])]])])]])])]"

definition line_same :: string where
  \<open>line_same = ''{"custom_id": "retouch_s.jpg", "response": {"candidates": [{"content": {"parts": [{"inline_data": {"mime_type": "image/png", "data": "aGk="}}, {"inline_data": {"mime_type": "image/png", "data": "eW8="}}]}}]}}''\<close>

definition example_env :: env where
  "example_env =
     \<lparr>loads = map_of [(line_a, line_a_json), (line_b, line_b_json), (line_err, line_err_json),
                      (line_two, line_two_json), (line_multi, line_multi_json),
                      (line_noid, line_noid_json), (line_same, line_same_json),
                      (''[]'', JArr [])],
      b64decode = map_of [(''aGk='', ''hi''), (''eW8='', ''yo'')],
      can_open = (\<lambda>path. True)\<rparr>"

section \<open>Properties of the file selection\<close>

lemma lower_char_ascii_upper:
  "lower_char CHR ''J'' = CHR ''j''" "lower_char CHR ''P'' = CHR ''p''"
  "lower_char CHR ''G'' = CHR ''g''" "lower_char CHR ''.'' = CHR ''.''"
  by (simp_all add: lower_char_def)

text \<open>
  Claim C8. Selection by extension is case-insensitive in every entry point. The upload
  path lowers the name before the test; the two synchronous entry points test the name as
  it is against six spellings, so a mixed-case extension such as \<open>.Jpg\<close> is accepted by the
  upload path and passed over by the synchronous ones.
\<close>

theorem sync_accepts_misses_mixed_case:
  "sync_accepts ''photo.Jpg'' = False \<and> upload_accepts ''photo.Jpg'' = True
   \<and> sync_image_files [''a.jpg'', ''photo.Jpg'', ''b.PNG''] = [''a.jpg'', ''b.PNG'']
   \<and> upload_files [''a.jpg'', ''photo.Jpg'', ''b.PNG''] = [''a.jpg'', ''photo.Jpg'', ''b.PNG'']"
  by (simp add: sync_accepts_def upload_accepts_def sync_image_files_def upload_files_def
      endswith_any_def py_lower_def lower_char_def suffix_to_prefix)

section \<open>Properties of the string operations\<close>

lemma py_replace_absent:
  "old \<noteq> [] \<Longrightarrow> \<not> sublist old s \<Longrightarrow> py_replace old new s = s"
proof (induction s)
  case Nil
  then show ?case by simp
next
  case (Cons c cs)
  have "\<not> prefix old (c # cs)" using Cons.prems(2) by (meson prefix_imp_sublist)
  moreover have "\<not> sublist old cs" using Cons.prems(2) by (meson sublist_Cons_right)
  ultimately show ?case using Cons by simp
qed

lemma py_replace_at_prefix:
  "old \<noteq> [] \<Longrightarrow> py_replace old new (old @ s) = new @ py_replace old new s"
  by (cases old) simp_all

lemma py_replace_length:
  "old \<noteq> [] \<Longrightarrow> length (py_replace old [] s) \<le> length s"
proof (induction old "[] :: string" s rule: py_replace.induct)
  case (1 old)
  then show ?case by simp
next
  case (2 old c cs)
  then show ?case by (auto simp: le_SucI)
qed

lemma py_replace_present:
  "old \<noteq> [] \<Longrightarrow> sublist old s \<Longrightarrow> length (py_replace old [] s) < length s"
proof (induction old "[] :: string" s rule: py_replace.induct)
  case (1 old)
  then show ?case by simp
next
  case (2 old c cs)
  show ?case
  proof (cases "prefix old (c # cs)")
    case True
    have "length (py_replace old [] (drop (length old) (c # cs)))
        \<le> length (drop (length old) (c # cs))"
      using 2 py_replace_length by blast
    also have "\<dots> < length (c # cs)" using "2.prems"(1) by (cases old) auto
    finally show ?thesis using True "2.prems" by simp
  next
    case False
    then have "sublist old cs" using "2.prems" by (simp add: sublist_Cons_right)
    then show ?thesis using 2 False by auto
  qed
qed

lemma rfind_lower: "- 1 \<le> rfind c s"
  by (induction s) (auto simp: Let_def)

lemma rfind_absent: "c \<notin> set s \<Longrightarrow> rfind c s = - 1"
  by (induction s) (auto simp: Let_def)

lemma splitext_no_dot: "CHR ''.'' \<notin> set p \<Longrightarrow> splitext p = (p, [])"
  using rfind_lower [of "CHR ''/''" p] by (simp add: splitext_def rfind_absent Let_def)

lemma digit_char_in: "d < 10 \<Longrightarrow> digit_char d \<in> set ''0123456789''"
  unfolding digit_char_def by (rule nth_mem) simp

lemma show_nat_digits: "set (show_nat n) \<subseteq> set ''0123456789''"
proof (induction n rule: show_nat.induct)
  case (1 n)
  show ?case
  proof (cases "n < 10")
    case True
    then show ?thesis using digit_char_in [of n] by (subst show_nat.simps) simp
  next
    case False
    have "n mod 10 < 10" by simp
    then have "digit_char (n mod 10) \<in> set ''0123456789''" by (rule digit_char_in)
    then show ?thesis using False 1 by (subst show_nat.simps) simp
  qed
qed

lemma suffix_same_length: "suffix a s \<Longrightarrow> suffix b s \<Longrightarrow> length a = length b \<Longrightarrow> a = b"
  by (auto simp: suffix_def append_eq_append_conv)

lemma out_path_suffix: "suffix ext (out_path b ext)"
  by (simp add: out_path_def os_path_join_def Let_def suffix_def)

section \<open>Properties of the result fetcher\<close>

subsection \<open>One part\<close>

lemma part_output_obj:
  assumes "map_of p ''inline_data'' = Some (JObj d)"
    and "map_of d ''data'' = Some x"
    and "map_of d ''mime_type'' = Some (JStr m)
         \<or> map_of d ''mime_type'' = None \<and> m = ''image/png''"
  shows "part_output (JStr cid) (JObj p) = Inr (saved_path cid m, x)"
  using assms by (auto simp: part_output_def ebind_def saved_path_def)

lemma save_part_no_inline:
  "map_of p ''inline_data'' = None \<Longrightarrow> save_part e cid (JObj p) st = (None, st)"
  by (simp add: save_part_def)

lemma save_part_image:
  assumes "image_part e part m bytes" and "can_open e (saved_path cid m)"
  shows "save_part e (JStr cid) part st =
     (None, st\<lparr>files := files st @ [(saved_path cid m, bytes)],
               success_count := success_count st + 1,
               log := log st @ [Saved (saved_path cid m)]\<rparr>)"
proof -
  from assms(1) obtain p d b where
    h: "part = JObj p" "map_of p ''inline_data'' = Some (JObj d)"
       "map_of d ''data'' = Some (JStr b)" "b64decode e b = Some bytes"
       "map_of d ''mime_type'' = Some (JStr m)
        \<or> map_of d ''mime_type'' = None \<and> m = ''image/png''"
    unfolding image_part_def by blast
  show ?thesis
    using h(1,2,4) assms(2) part_output_obj [OF h(2,3,5), of cid]
    by (simp add: save_part_def py_b64decode_def)
qed

subsection \<open>One line\<close>

lemma line_body_parts:
  assumes "candidate_line e line s ps"
  shows "line_body e i line st =
     save_parts e
       (case map_of s ''custom_id'' of Some v \<Rightarrow> v | None \<Rightarrow> JStr (''image_'' @ show_nat i))
       ps st"
  using assms
  by (auto simp: candidate_line_def line_body_def line_parts_def ebind_def split: option.split)

lemma process_line_malformed:
  "loads e line = None \<Longrightarrow>
   process_line e i line st = st\<lparr>log := log st @ [Failed i JSONDecodeError]\<rparr>"
  by (simp add: process_line_def line_body_def)

lemma process_line_error:
  assumes "error_line e line err"
  shows "\<exists>c. process_line e i line st = st\<lparr>log := log st @ [ErrorFor c err]\<rparr>"
  using assms by (auto simp: error_line_def process_line_def line_body_def)

lemma process_line_success:
  assumes "success_line e line s m bytes" and "map_of s ''custom_id'' = Some (JStr cid)"
    and "can_open e (saved_path cid m)"
  shows "process_line e i line st =
     st\<lparr>files := files st @ [(saved_path cid m, bytes)],
        success_count := success_count st + 1,
        log := log st @ [Saved (saved_path cid m)]\<rparr>"
proof -
  from assms(1) obtain part where
    h: "candidate_line e line s [part]" "image_part e part m bytes"
    unfolding success_line_def by blast
  have "line_body e i line st = save_parts e (JStr cid) [part] st"
    using line_body_parts [OF h(1)] assms(2) by simp
  then show ?thesis
    using save_part_image [OF h(2) assms(3)]
    by (simp add: process_line_def)
qed

subsection \<open>The example environment\<close>

lemma example_loads:
  "loads example_env line_a = Some line_a_json"
  "loads example_env line_b = Some line_b_json"
  "loads example_env line_err = Some line_err_json"
  "loads example_env line_two = Some line_two_json"
  "loads example_env line_multi = Some line_multi_json"
  "loads example_env line_noid = Some line_noid_json"
  "loads example_env ''not json'' = None"
  "loads example_env line_same = Some line_same_json"
  "loads example_env ''[]'' = Some (JArr [])"
  by (simp_all add: example_env_def line_a_def line_b_def line_err_def line_two_def
      line_multi_def line_noid_def line_same_def)

lemma saved_path_examples:
  "saved_path ''retouch_a.jpg'' ''image/png'' = ''./data/processed/a_retouched.png''"
  "saved_path ''retouch_b.png'' ''image/jpeg'' = ''./data/processed/b_retouched.jpg''"
  "saved_path ''retouch_d.jpg'' ''image/png'' = ''./data/processed/d_retouched.png''"
  "saved_path ''retouch_e.jpg'' ''image/png'' = ''./data/processed/e_retouched.png''"
  "saved_path ''retouch_e.jpg'' ''image/jpeg'' = ''./data/processed/e_retouched.jpg''"
  "saved_path ''retouch_s.jpg'' ''image/png'' = ''./data/processed/s_retouched.png''"
  by (simp_all add: saved_path_def out_path_def splitext_def splitext_loop.simps
      os_path_join_def OUTPUT_DIR_def Let_def sublist_code suffix_to_prefix)

lemma example_success:
  "\<exists>s. success_line example_env line_a s ''image/png'' ''hi''
       \<and> map_of s ''custom_id'' = Some (JStr ''retouch_a.jpg'')"
  "\<exists>s. success_line example_env line_b s ''image/jpeg'' ''yo''
       \<and> map_of s ''custom_id'' = Some (JStr ''retouch_b.png'')"
  "\<exists>s. success_line example_env line_noid s ''image/jpeg'' ''yo''
       \<and> map_of s ''custom_id'' = None"
  using example_loads
  by (simp_all add: success_line_def candidate_line_def image_part_def line_a_json_def
      line_b_json_def line_noid_json_def example_env_def)

lemma example_error:
  "error_line example_env line_err (JObj [(''code'', JInt 400), (''message'', JStr ''bad image'')])"
  using example_loads by (simp add: error_line_def line_err_json_def)

lemma example_can_open: "can_open example_env path"
  by (simp add: example_env_def)

lemma example_split:
  "py_split CHR 0x0A (py_strip (line_a @ ''\<newline>'' @ line_err @ ''\<newline>'')) = [line_a, line_err]"
  "py_split CHR 0x0A (py_strip (line_a @ ''\<newline>not json\<newline>'' @ line_b @ ''\<newline>''))
     = [line_a, ''not json'', line_b]"
  by (simp_all add: line_a_def line_err_def line_b_def py_strip_def is_space_def)

subsection \<open>Lines with an error, malformed lines, the extension\<close>

text \<open>
  Claim C3. A manifest of one well-formed success line and one line whose response has an
  \<open>error\<close> field, in either order: the image of the success line is the one file written,
  the count is one, and the log holds the saved image and the error of the other line, so
  no failure of a line is recorded.
\<close>

theorem error_line_is_skipped:
  assumes "success_line e ls s m bytes" and "map_of s ''custom_id'' = Some (JStr cid)"
    and "can_open e (saved_path cid m)"
    and "error_line e le err"
    and "py_split CHR 0x0A (py_strip content) = [ls, le]
         \<or> py_split CHR 0x0A (py_strip content) = [le, ls]"
  shows "files (parse_results e content) = [(saved_path cid m, bytes)]
     \<and> success_count (parse_results e content) = 1
     \<and> (\<exists>c. set (log (parse_results e content)) = {Saved (saved_path cid m), ErrorFor c err})"
proof (rule disjE [OF assms(5)])
  assume l: "py_split CHR 0x0A (py_strip content) = [ls, le]"
  obtain c where "process_line e 1 le (process_line e 0 ls init_state)
     = (process_line e 0 ls init_state)\<lparr>log := log (process_line e 0 ls init_state) @ [ErrorFor c err]\<rparr>"
    using process_line_error [OF assms(4)] by blast
  then show ?thesis
    using l process_line_success [OF assms(1,2,3)]
    by (auto simp: parse_results_def init_state_def)
next
  assume l: "py_split CHR 0x0A (py_strip content) = [le, ls]"
  obtain c where "process_line e 0 le init_state = init_state\<lparr>log := log init_state @ [ErrorFor c err]\<rparr>"
    using process_line_error [OF assms(4)] by blast
  then show ?thesis
    using l process_line_success [OF assms(1,2,3)]
    by (auto simp: parse_results_def init_state_def)
qed

theorem error_line_is_skipped_witness:
  "files (parse_results example_env (line_a @ ''\<newline>'' @ line_err @ ''\<newline>''))
     = [(''./data/processed/a_retouched.png'', ''hi'')]
   \<and> success_count (parse_results example_env (line_a @ ''\<newline>'' @ line_err @ ''\<newline>'')) = 1"
proof -
  obtain s where s: "success_line example_env line_a s ''image/png'' ''hi''"
      "map_of s ''custom_id'' = Some (JStr ''retouch_a.jpg'')"
    using example_success(1) by blast
  show ?thesis
    using error_line_is_skipped [OF s example_can_open example_error, 
        of "line_a @ ''\<newline>'' @ line_err @ ''\<newline>''"] example_split(1)
    by (simp add: saved_path_examples)
qed

text \<open>
  Claim C4. A line that \<open>json.loads\<close> refuses, between two well-formed success lines:
  its failure is recorded under its index, and the images of both other lines are written.
\<close>

theorem malformed_line_does_not_abort:
  assumes "success_line e l1 s1 m1 bytes1" and "map_of s1 ''custom_id'' = Some (JStr cid1)"
    and "can_open e (saved_path cid1 m1)"
    and "loads e bad = None"
    and "success_line e l3 s3 m3 bytes3" and "map_of s3 ''custom_id'' = Some (JStr cid3)"
    and "can_open e (saved_path cid3 m3)"
    and "py_split CHR 0x0A (py_strip content) = [l1, bad, l3]"
  shows "parse_results e content =
     \<lparr>files = [(saved_path cid1 m1, bytes1), (saved_path cid3 m3, bytes3)],
      success_count = 2,
      log = [Saved (saved_path cid1 m1), Failed 1 JSONDecodeError, Saved (saved_path cid3 m3)]\<rparr>"
  using assms(8) process_line_success [OF assms(1,2,3)] process_line_malformed [OF assms(4)]
    process_line_success [OF assms(5,6,7)]
  by (simp add: parse_results_def init_state_def)

theorem malformed_line_does_not_abort_witness:
  "parse_results example_env (line_a @ ''\<newline>not json\<newline>'' @ line_b @ ''\<newline>'') =
     \<lparr>files = [(''./data/processed/a_retouched.png'', ''hi''),
               (''./data/processed/b_retouched.jpg'', ''yo'')],
      success_count = 2,
      log = [Saved ''./data/processed/a_retouched.png'', Failed 1 JSONDecodeError,
             Saved ''./data/processed/b_retouched.jpg'']\<rparr>"
proof -
  obtain s1 where s1: "success_line example_env line_a s1 ''image/png'' ''hi''"
      "map_of s1 ''custom_id'' = Some (JStr ''retouch_a.jpg'')"
    using example_success(1) by blast
  obtain s3 where s3: "success_line example_env line_b s3 ''image/jpeg'' ''yo''"
      "map_of s3 ''custom_id'' = Some (JStr ''retouch_b.png'')"
    using example_success(2) by blast
  show ?thesis
    using malformed_line_does_not_abort [OF s1 example_can_open example_loads(7) s3
        example_can_open example_split(2)]
    by (simp add: saved_path_examples)
qed

lemma saved_path_extension:
  "(suffix ''.jpg'' (saved_path cid m) \<longleftrightarrow> sublist ''jpeg'' m)
   \<and> (suffix ''.png'' (saved_path cid m) \<longleftrightarrow> \<not> sublist ''jpeg'' m)"
proof -
  have s: "suffix (if sublist ''jpeg'' m then ''.jpg'' else ''.png'') (saved_path cid m)"
    unfolding saved_path_def by (rule out_path_suffix)
  show ?thesis
    using s suffix_same_length [of "''.jpg''" "saved_path cid m" "''.png''"]
    by (auto split: if_splits)
qed

lemma example_image_parts:
  "image_part example_env
     (JObj [(''inline_data'', JObj [(''mime_type'', JStr ''image/png''), (''data'', JStr ''aGk='')])])
     m bytes \<longleftrightarrow> m = ''image/png'' \<and> bytes = ''hi''"
  "image_part example_env
     (JObj [(''inline_data'', JObj [(''mime_type'', JStr ''image/jpeg''), (''data'', JStr ''eW8='')])])
     m bytes \<longleftrightarrow> m = ''image/jpeg'' \<and> bytes = ''yo''"
  "image_part example_env
     (JObj [(''inline_data'', JObj [(''mime_type'', JStr ''image/png''), (''data'', JStr ''eW8='')])])
     m bytes \<longleftrightarrow> m = ''image/png'' \<and> bytes = ''yo''"
  "image_part example_env
     (JObj [(''inline_data'', JObj [(''data'', JStr ''aGk='')])])
     m bytes \<longleftrightarrow> m = ''image/png'' \<and> bytes = ''hi''"
  by (auto simp: image_part_def example_env_def)

text \<open>
  Claim C5. A part with inline data, on a line with a str identifier and an openable
  output path, is saved, and the path written ends in \<open>.jpg\<close> exactly when the declared
  MIME type contains \<open>jpeg\<close>, a missing type counting as \<open>image/png\<close>, and in
  \<open>.png\<close> otherwise.
\<close>

theorem extension_follows_mime_type:
  assumes "image_part e part m bytes" and "can_open e (saved_path cid m)"
  shows "save_part e (JStr cid) part st =
           (None, st\<lparr>files := files st @ [(saved_path cid m, bytes)],
                     success_count := success_count st + 1,
                     log := log st @ [Saved (saved_path cid m)]\<rparr>)
     \<and> (suffix ''.jpg'' (saved_path cid m) \<longleftrightarrow> sublist ''jpeg'' m)
     \<and> (suffix ''.png'' (saved_path cid m) \<longleftrightarrow> \<not> sublist ''jpeg'' m)"
  using save_part_image [OF assms, of st] saved_path_extension [of cid m] by simp

theorem extension_follows_mime_type_witness:
  "save_part example_env (JStr ''retouch_b.png'')
     (JObj [(''inline_data'', JObj [(''mime_type'', JStr ''image/jpeg''), (''data'', JStr ''eW8='')])])
     init_state
     = (None, \<lparr>files = [(''./data/processed/b_retouched.jpg'', ''yo'')], success_count = 1,
               log = [Saved ''./data/processed/b_retouched.jpg'']\<rparr>)
   \<and> save_part example_env (JStr ''retouch_a.jpg'')
     (JObj [(''inline_data'', JObj [(''data'', JStr ''aGk='')])])
     init_state
     = (None, \<lparr>files = [(''./data/processed/a_retouched.png'', ''hi'')], success_count = 1,
               log = [Saved ''./data/processed/a_retouched.png'']\<rparr>)"
  using extension_follows_mime_type [OF _ example_can_open,
      of "JObj [(''inline_data'', JObj [(''mime_type'', JStr ''image/jpeg''), (''data'', JStr ''eW8='')])]"
         "''image/jpeg''" "''yo''" "''retouch_b.png''" init_state]
    extension_follows_mime_type [OF _ example_can_open,
      of "JObj [(''inline_data'', JObj [(''data'', JStr ''aGk='')])]"
         "''image/png''" "''hi''" "''retouch_a.jpg''" init_state]
  by (simp add: example_image_parts saved_path_examples init_state_def)

subsection \<open>All the parts of a line\<close>

lemma well_formed_part_cases:
  assumes "well_formed_part e part"
  shows "(\<exists>p. part = JObj p \<and> map_of p ''inline_data'' = None)
       \<or> (\<exists>m bytes. image_part e part m bytes)"
proof (cases part)
  case (JObj p)
  show ?thesis
  proof (cases "map_of p ''inline_data''")
    case None
    then show ?thesis using JObj by simp
  next
    case (Some v)
    then obtain d where d: "v = JObj d" using assms JObj by (cases v) auto
    obtain b where b: "map_of d ''data'' = Some (JStr b)" "b64decode e b \<noteq> None"
      using assms JObj Some d by (auto split: option.splits json.splits)
    then obtain bytes where bytes: "b64decode e b = Some bytes" by auto
    have "map_of d ''mime_type'' = None \<or> (\<exists>m. map_of d ''mime_type'' = Some (JStr m))"
      using assms JObj Some d by (auto split: option.splits json.splits)
    then have "\<exists>m. image_part e part m bytes"
      using JObj Some d b(1) bytes by (auto simp: image_part_def)
    then show ?thesis by blast
  qed
qed (use assms in auto)

lemma has_inline_data_obj: "has_inline_data (JObj p) \<longleftrightarrow> map_of p ''inline_data'' \<noteq> None"
  by (simp add: has_inline_data_def)

lemma image_part_has_inline_data: "image_part e part m bytes \<Longrightarrow> has_inline_data part"
  by (auto simp: image_part_def has_inline_data_def)

lemma saved_path_two:
  "saved_path cid m = saved_path cid ''image/jpeg'' \<or> saved_path cid m = saved_path cid ''image/png''"
  by (simp add: saved_path_def sublist_code)

lemma save_parts_exact:
  assumes "\<forall>part\<in>set ps. well_formed_part e part"
    and "can_open e (saved_path cid ''image/jpeg'')" and "can_open e (saved_path cid ''image/png'')"
  shows "\<exists>new. save_parts e (JStr cid) ps st =
           (None, st\<lparr>files := files st @ new,
                     success_count := success_count st + length new,
                     log := log st @ map (\<lambda>f. Saved (fst f)) new\<rparr>)
         \<and> list_all2 (\<lambda>part f. \<exists>m. image_part e part m (snd f) \<and> fst f = saved_path cid m)
              (filter has_inline_data ps) new"
  using assms(1)
proof (induction ps arbitrary: st)
  case Nil
  have "save_parts e (JStr cid) [] st =
      (None, st\<lparr>files := files st @ [],
                success_count := success_count st + length ([] :: (string \<times> string) list),
                log := log st @ map (\<lambda>f. Saved (fst f)) []\<rparr>)"
    by simp
  then show ?case by (intro exI [of _ "[]"]) simp
next
  case (Cons part ps)
  have wf: "well_formed_part e part" and rest: "\<forall>x\<in>set ps. well_formed_part e x"
    using Cons.prems by simp_all
  from well_formed_part_cases [OF wf] show ?case
  proof
    assume "\<exists>p. part = JObj p \<and> map_of p ''inline_data'' = None"
    then obtain p where p: "part = JObj p" "map_of p ''inline_data'' = None" by blast
    obtain new where new: "save_parts e (JStr cid) ps st =
           (None, st\<lparr>files := files st @ new,
                     success_count := success_count st + length new,
                     log := log st @ map (\<lambda>f. Saved (fst f)) new\<rparr>)"
         "list_all2 (\<lambda>part f. \<exists>m. image_part e part m (snd f) \<and> fst f = saved_path cid m)
              (filter has_inline_data ps) new"
      using Cons.IH [OF rest] by blast
    have "save_parts e (JStr cid) (part # ps) st =
           (None, st\<lparr>files := files st @ new,
                     success_count := success_count st + length new,
                     log := log st @ map (\<lambda>f. Saved (fst f)) new\<rparr>)"
      using p(1) save_part_no_inline [OF p(2), of e "JStr cid" st] new(1) by simp
    moreover have "list_all2 (\<lambda>part f. \<exists>m. image_part e part m (snd f) \<and> fst f = saved_path cid m)
              (filter has_inline_data (part # ps)) new"
      using p new(2) by (simp add: has_inline_data_obj)
    ultimately show ?thesis by blast
  next
    assume "\<exists>m bytes. image_part e part m bytes"
    then obtain m bytes where ip: "image_part e part m bytes" by blast
    have co: "can_open e (saved_path cid m)"
      using saved_path_two [of cid m] assms(2,3) by auto
    let ?st1 = "st\<lparr>files := files st @ [(saved_path cid m, bytes)],
               success_count := success_count st + 1,
               log := log st @ [Saved (saved_path cid m)]\<rparr>"
    obtain new where new: "save_parts e (JStr cid) ps ?st1 =
           (None, ?st1\<lparr>files := files ?st1 @ new,
                     success_count := success_count ?st1 + length new,
                     log := log ?st1 @ map (\<lambda>f. Saved (fst f)) new\<rparr>)"
         "list_all2 (\<lambda>part f. \<exists>m. image_part e part m (snd f) \<and> fst f = saved_path cid m)
              (filter has_inline_data ps) new"
      using Cons.IH [OF rest] by blast
    have "save_parts e (JStr cid) (part # ps) st =
           (None, st\<lparr>files := files st @ ((saved_path cid m, bytes) # new),
                     success_count := success_count st + length ((saved_path cid m, bytes) # new),
                     log := log st @ map (\<lambda>f. Saved (fst f)) ((saved_path cid m, bytes) # new)\<rparr>)"
      using save_part_image [OF ip co, of st] new(1) by simp
    moreover have "list_all2 (\<lambda>part f. \<exists>m. image_part e part m (snd f) \<and> fst f = saved_path cid m)
              (filter has_inline_data (part # ps)) ((saved_path cid m, bytes) # new)"
      using new(2) image_part_has_inline_data [OF ip] ip by auto
    ultimately show ?thesis by blast
  qed
qed

lemma process_line_candidates:
  assumes "candidate_line e line s ps"
    and "py_get (JObj s) ''custom_id'' (JStr (''image_'' @ show_nat i)) = Inr (JStr cid)"
    and "\<forall>part\<in>set ps. well_formed_part e part"
    and "can_open e (saved_path cid ''image/jpeg'')" and "can_open e (saved_path cid ''image/png'')"
  shows "\<exists>new. process_line e i line st =
           st\<lparr>files := files st @ new,
              success_count := success_count st + length new,
              log := log st @ map (\<lambda>f. Saved (fst f)) new\<rparr>
         \<and> list_all2 (\<lambda>part f. \<exists>m. image_part e part m (snd f) \<and> fst f = saved_path cid m)
              (filter has_inline_data ps) new"
proof -
  have "line_body e i line st = save_parts e (JStr cid) ps st"
    using line_body_parts [OF assms(1), of i st] assms(2)
    by (cases "map_of s ''custom_id''") simp_all
  moreover obtain new where "save_parts e (JStr cid) ps st =
           (None, st\<lparr>files := files st @ new,
                     success_count := success_count st + length new,
                     log := log st @ map (\<lambda>f. Saved (fst f)) new\<rparr>)"
      and l: "list_all2 (\<lambda>part f. \<exists>m. image_part e part m (snd f) \<and> fst f = saved_path cid m)
              (filter has_inline_data ps) new"
    using save_parts_exact [OF assms(3,4,5), of st] by blast
  ultimately have "process_line e i line st =
           st\<lparr>files := files st @ new,
              success_count := success_count st + length new,
              log := log st @ map (\<lambda>f. Saved (fst f)) new\<rparr>"
    by (simp add: process_line_def)
  then show ?thesis using l by blast
qed

text \<open>
  Claim C7, as the code has it. The parser reads the first candidate only. On a line whose
  first candidate has well-formed content parts, the parts with inline data are written in
  their order, one write each: the decoded bytes of the part, to the path named from the
  identifier of the line and the MIME type of the part. Nothing else changes and no failure
  is recorded; with no such part the state is left as it was.
\<close>

theorem first_candidate_parts_are_saved:
  assumes "candidate_line e line s ps" and "map_of s ''custom_id'' = Some (JStr cid)"
    and "\<forall>part\<in>set ps. well_formed_part e part"
    and "can_open e (saved_path cid ''image/jpeg'')" and "can_open e (saved_path cid ''image/png'')"
  shows "(\<exists>new. process_line e i line st =
           st\<lparr>files := files st @ new,
              success_count := success_count st + length new,
              log := log st @ map (\<lambda>f. Saved (fst f)) new\<rparr>
         \<and> list_all2 (\<lambda>part f. \<exists>m. image_part e part m (snd f) \<and> fst f = saved_path cid m)
              (filter has_inline_data ps) new)
     \<and> (filter has_inline_data ps = [] \<longrightarrow> process_line e i line st = st)"
proof -
  have g: "py_get (JObj s) ''custom_id'' (JStr (''image_'' @ show_nat i)) = Inr (JStr cid)"
    using assms(2) by simp
  obtain new where p: "process_line e i line st =
           st\<lparr>files := files st @ new,
              success_count := success_count st + length new,
              log := log st @ map (\<lambda>f. Saved (fst f)) new\<rparr>"
      and l: "list_all2 (\<lambda>part f. \<exists>m. image_part e part m (snd f) \<and> fst f = saved_path cid m)
              (filter has_inline_data ps) new"
    using process_line_candidates [OF assms(1) g assms(3,4,5), of st] by blast
  have "process_line e i line st = st" if "filter has_inline_data ps = []"
  proof -
    have "new = []" using l that by simp
    then show ?thesis using p by simp
  qed
  then show ?thesis using p l by blast
qed

lemma example_candidate_multi:
  "candidate_line example_env line_multi
     [(''custom_id'', JStr ''retouch_e.jpg''),
           (''response'', JObj [(''candidates'',
              JArr [JObj [(''content'', JObj [(''parts'',
                      JArr [JObj [(''text'', JStr ''done'')],
                            JObj [(''inline_data'',
                              JObj [(''mime_type'', JStr ''image/png''), (''data'', JStr ''aGk='')])],
                            JObj [(''inline_data'',
                              JObj [(''mime_type'', JStr ''image/jpeg''), (''data'', JStr ''eW8='')])]])])]])])]
     [JObj [(''text'', JStr ''done'')],
                            JObj [(''inline_data'',
                              JObj [(''mime_type'', JStr ''image/png''), (''data'', JStr ''aGk='')])],
                            JObj [(''inline_data'',
                              JObj [(''mime_type'', JStr ''image/jpeg''), (''data'', JStr ''eW8='')])]]"
  using example_loads(5) by (simp add: candidate_line_def line_multi_json_def)

theorem first_candidate_parts_are_saved_witness:
  "process_line example_env 0 line_multi init_state =
     \<lparr>files = [(''./data/processed/e_retouched.png'', ''hi''),
               (''./data/processed/e_retouched.jpg'', ''yo'')],
      success_count = 2,
      log = [Saved ''./data/processed/e_retouched.png'', Saved ''./data/processed/e_retouched.jpg'']\<rparr>"
proof -
  have "\<forall>part\<in>set [JObj [(''text'', JStr ''done'')],
                            JObj [(''inline_data'',
                              JObj [(''mime_type'', JStr ''image/png''), (''data'', JStr ''aGk='')])],
                            JObj [(''inline_data'',
                              JObj [(''mime_type'', JStr ''image/jpeg''), (''data'', JStr ''eW8='')])]].
          well_formed_part example_env part"
    by (simp add: example_env_def)
  from first_candidate_parts_are_saved [OF example_candidate_multi _ this example_can_open
      example_can_open, of "''retouch_e.jpg''" 0 init_state]
  obtain new where "process_line example_env 0 line_multi init_state =
           init_state\<lparr>files := files init_state @ new,
              success_count := success_count init_state + length new,
              log := log init_state @ map (\<lambda>f. Saved (fst f)) new\<rparr>"
      and "list_all2 (\<lambda>part f. \<exists>m. image_part example_env part m (snd f)
                \<and> fst f = saved_path ''retouch_e.jpg'' m)
             (filter has_inline_data
             [JObj [(''text'', JStr ''done'')],
              JObj [(''inline_data'',
                JObj [(''mime_type'', JStr ''image/png''), (''data'', JStr ''aGk='')])],
              JObj [(''inline_data'',
                JObj [(''mime_type'', JStr ''image/jpeg''), (''data'', JStr ''eW8='')])]]) new"
    by auto
  then show ?thesis
    by (auto simp: init_state_def has_inline_data_def list_all2_Cons1 example_image_parts
        saved_path_examples prod_eq_iff)
qed

lemma example_split_two: "py_split CHR 0x0A (py_strip line_two) = [line_two]"
  by (simp add: line_two_def py_strip_def is_space_def)

lemma example_candidate_same:
  "candidate_line example_env line_same
     [(''custom_id'', JStr ''retouch_s.jpg''),
           (''response'', JObj [(''candidates'',
              JArr [JObj [(''content'', JObj [(''parts'',
                      JArr [JObj [(''inline_data'',
                              JObj [(''mime_type'', JStr ''image/png''), (''data'', JStr ''aGk='')])],
                            JObj [(''inline_data'',
                              JObj [(''mime_type'', JStr ''image/png''), (''data'', JStr ''eW8='')])]])])]])])]
     [JObj [(''inline_data'', JObj [(''mime_type'', JStr ''image/png''), (''data'', JStr ''aGk='')])],
      JObj [(''inline_data'', JObj [(''mime_type'', JStr ''image/png''), (''data'', JStr ''eW8='')])]]"
  using example_loads(8) by (simp add: candidate_line_def line_same_json_def)

lemma example_split_same: "py_split CHR 0x0A (py_strip line_same) = [line_same]"
  by (simp add: line_same_def py_strip_def is_space_def)

lemma example_files_same:
  "files (parse_results example_env line_same)
     = [(''./data/processed/s_retouched.png'', ''hi''), (''./data/processed/s_retouched.png'', ''yo'')]"
proof -
  let ?ps = "[JObj [(''inline_data'', JObj [(''mime_type'', JStr ''image/png''), (''data'', JStr ''aGk='')])],
      JObj [(''inline_data'', JObj [(''mime_type'', JStr ''image/png''), (''data'', JStr ''eW8='')])]]"
  have wf: "\<forall>part\<in>set ?ps. well_formed_part example_env part"
    by (simp add: example_env_def)
  obtain new where p: "process_line example_env 0 line_same init_state =
           init_state\<lparr>files := files init_state @ new,
              success_count := success_count init_state + length new,
              log := log init_state @ map (\<lambda>f. Saved (fst f)) new\<rparr>"
      and r: "list_all2 (\<lambda>part f. \<exists>m. image_part example_env part m (snd f)
                \<and> fst f = saved_path ''retouch_s.jpg'' m)
              (filter has_inline_data ?ps) new"
    using process_line_candidates [OF example_candidate_same _ wf example_can_open example_can_open,
        of 0 "''retouch_s.jpg''" init_state]
    by auto
  have "new = [(''./data/processed/s_retouched.png'', ''hi''), (''./data/processed/s_retouched.png'', ''yo'')]"
    using r by (auto simp: has_inline_data_def list_all2_Cons1 example_image_parts
        prod_eq_iff saved_path_examples)
  then show ?thesis using p by (simp add: parse_results_def example_split_same init_state_def)
qed

text \<open>
  Claim C7 as stated fails twice. Of two candidates with an inline image each, only the
  image of the first is written. And two inline images of one type in the first candidate
  are written to one path, so one file is left, holding the second image.
\<close>

theorem first_candidate_only_counterexample:
  "loads example_env line_two = Some line_two_json
   \<and> length (all_inline_parts line_two_json) = 2
   \<and> files (parse_results example_env line_two) = [(''./data/processed/d_retouched.png'', ''hi'')]
   \<and> loads example_env line_same = Some line_same_json
   \<and> length (all_inline_parts line_same_json) = 2
   \<and> files (parse_results example_env line_same)
       = [(''./data/processed/s_retouched.png'', ''hi''), (''./data/processed/s_retouched.png'', ''yo'')]
   \<and> remdups (map fst (files (parse_results example_env line_same)))
       = [''./data/processed/s_retouched.png'']
   \<and> disk (parse_results example_env line_same) ''./data/processed/s_retouched.png'' = Some ''yo''"
proof -
  have c: "candidate_line example_env line_two
     [(''custom_id'', JStr ''retouch_d.jpg''),
           (''response'', JObj [(''candidates'',
              JArr [JObj [(''content'', JObj [(''parts'',
                      JArr [JObj [(''inline_data'',
                        JObj [(''mime_type'', JStr ''image/png''), (''data'', JStr ''aGk='')])]])])],
                    JObj [(''content'', JObj [(''parts'',
                      JArr [JObj [(''inline_data'',
                        JObj [(''mime_type'', JStr ''image/jpeg''), (''data'', JStr ''eW8='')])]])])]])])]
     [JObj [(''inline_data'', JObj [(''mime_type'', JStr ''image/png''), (''data'', JStr ''aGk='')])]]"
    using example_loads(4) by (simp add: candidate_line_def line_two_json_def)
  have i: "image_part example_env
     (JObj [(''inline_data'', JObj [(''mime_type'', JStr ''image/png''), (''data'', JStr ''aGk='')])])
     ''image/png'' ''hi''"
    by (simp add: image_part_def example_env_def)
  have "success_line example_env line_two
     [(''custom_id'', JStr ''retouch_d.jpg''),
           (''response'', JObj [(''candidates'',
              JArr [JObj [(''content'', JObj [(''parts'',
                      JArr [JObj [(''inline_data'',
                        JObj [(''mime_type'', JStr ''image/png''), (''data'', JStr ''aGk='')])]])])],
                    JObj [(''content'', JObj [(''parts'',
                      JArr [JObj [(''inline_data'',
                        JObj [(''mime_type'', JStr ''image/jpeg''), (''data'', JStr ''eW8='')])]])])]])])]
     ''image/png'' ''hi''"
    unfolding success_line_def using c i by blast
  from process_line_success [OF this _ example_can_open, of "''retouch_d.jpg''" 0 init_state]
  have "files (parse_results example_env line_two) = [(''./data/processed/d_retouched.png'', ''hi'')]"
    by (simp add: parse_results_def example_split_two saved_path_examples init_state_def)
  moreover have "length (all_inline_parts line_two_json) = 2"
    by (simp add: all_inline_parts_def line_two_json_def ebind_def has_inline_data_def)
  moreover have "length (all_inline_parts line_same_json) = 2"
    by (simp add: all_inline_parts_def line_same_json_def ebind_def has_inline_data_def)
  ultimately show ?thesis
    using example_loads(4) example_loads(8) example_files_same by (simp add: disk_def)
qed

subsection \<open>Identifiers\<close>

lemma not_in_show_nat:
  assumes "c \<notin> set ''0123456789''"
  shows "c \<notin> set (show_nat i)"
  using assms show_nat_digits [of i] by blast

lemma no_tag_in_fallback: "\<not> sublist ''retouch_'' (''image_'' @ show_nat i)"
proof
  assume "sublist ''retouch_'' (''image_'' @ show_nat i)"
  then have "set ''retouch_'' \<subseteq> set (''image_'' @ show_nat i)" by (rule set_mono_sublist)
  then have "CHR ''r'' \<in> set (''image_'' @ show_nat i)" by simp
  moreover have "CHR ''r'' \<notin> set (show_nat i)" by (rule not_in_show_nat) simp
  ultimately show False by simp
qed

lemma no_dot_in_fallback: "CHR ''.'' \<notin> set (''image_'' @ show_nat i)"
proof -
  have "CHR ''.'' \<notin> set (show_nat i)" by (rule not_in_show_nat) simp
  then show ?thesis by simp
qed

lemma saved_path_fallback:
  "saved_path (''image_'' @ show_nat i) m =
     ''./data/processed/image_'' @ show_nat i @ ''_retouched''
       @ (if sublist ''jpeg'' m then ''.jpg'' else ''.png'')"
proof -
  have "py_replace ''retouch_'' [] (''image_'' @ show_nat i) = ''image_'' @ show_nat i"
    using no_tag_in_fallback by (intro py_replace_absent) simp_all
  moreover have "splitext (''image_'' @ show_nat i) = (''image_'' @ show_nat i, [])"
    using no_dot_in_fallback by (rule splitext_no_dot)
  ultimately show ?thesis
    by (simp add: saved_path_def out_path_def os_path_join_def OUTPUT_DIR_def suffix_to_prefix)
qed

lemma saved_path_fallback_two:
  "saved_path (''image_'' @ show_nat i) ''image/jpeg''
     = ''./data/processed/image_'' @ show_nat i @ ''_retouched.jpg''"
  "saved_path (''image_'' @ show_nat i) ''image/png''
     = ''./data/processed/image_'' @ show_nat i @ ''_retouched.png''"
  using saved_path_fallback [of i "''image/jpeg''"] saved_path_fallback [of i "''image/png''"]
  by (simp_all add: sublist_code)

lemma process_lines_append:
  "process_lines e k (pre @ rest) st = process_lines e (k + length pre) rest (process_lines e k pre st)"
  by (induction pre arbitrary: k st) simp_all

lemma parse_results_at:
  assumes "py_split CHR 0x0A (py_strip content) = pre @ line # post"
  shows "parse_results e content =
     process_lines e (Suc (length pre)) post
       (process_line e (length pre) line (process_lines e 0 pre init_state))"
  using assms process_lines_append [of e 0 pre "line # post" init_state]
  by (simp add: parse_results_def)

lemma save_part_same_files:
  assumes "b64decode e2 = b64decode e" and "can_open e2 = can_open e"
  shows "save_part e2 cid part st = save_part e cid part st"
proof -
  have "py_b64decode e2 x = py_b64decode e x" for x
    using assms(1) by (simp add: py_b64decode_def split: json.splits option.splits)
  then show ?thesis
    using assms(2) by (auto simp: save_part_def split: sum.splits bool.splits prod.splits)
qed

lemma save_parts_same_files:
  assumes "b64decode e2 = b64decode e" and "can_open e2 = can_open e"
  shows "save_parts e2 cid ps st = save_parts e cid ps st"
  by (induction ps arbitrary: st)
     (simp_all add: save_part_same_files [OF assms] split: prod.splits option.splits)

lemma line_body_fallback:
  assumes "loads e line = Some (JObj s)" and "map_of s ''custom_id'' = None"
    and "loads e2 line = Some (JObj ((''custom_id'', JStr (''image_'' @ show_nat i)) # s))"
    and "b64decode e2 = b64decode e" and "can_open e2 = can_open e"
  shows "line_body e i line st = line_body e2 i line st"
  using assms(1,2,3) save_parts_same_files [OF assms(4,5)]
  by (auto simp: line_body_def split: sum.splits bool.splits option.splits)

text \<open>
  Claim C10, as the code has it. A line of the manifest that parses to an object without
  \<open>custom_id\<close> is processed under the number of lines before it, and exactly as the same
  object with the \<open>custom_id\<close> \<open>image_\<close> followed by that number: its error or its lack of
  candidates is reported under this identifier, and the inline images of its first
  candidate are written as \<open>image_<i>_retouched\<close> with the extension of their MIME type.
\<close>

theorem missing_custom_id_falls_back_to_index:
  assumes "py_split CHR 0x0A (py_strip content) = pre @ line # post"
    and "loads e line = Some (JObj s)" and "map_of s ''custom_id'' = None"
    and "fallback = ''image_'' @ show_nat (length pre)"
  shows "parse_results e content =
           process_lines e (Suc (length pre)) post
             (process_line e (length pre) line (process_lines e 0 pre init_state))
     \<and> (\<forall>e2 :: env. loads e2 line = Some (JObj ((''custom_id'', JStr fallback) # s))
              \<and> b64decode e2 = b64decode e \<and> can_open e2 = can_open e
           \<longrightarrow> process_line e (length pre) line st = process_line e2 (length pre) line st)
     \<and> (\<forall>r err. map_of s ''response'' = Some (JObj r) \<and> map_of r ''error'' = Some err
           \<longrightarrow> process_line e (length pre) line st
                 = st\<lparr>log := log st @ [ErrorFor (JStr fallback) err]\<rparr>)
     \<and> (map_of s ''response'' = None
          \<or> (\<exists>r. map_of s ''response'' = Some (JObj r) \<and> map_of r ''error'' = None
                 \<and> map_of r ''candidates'' = None)
           \<longrightarrow> process_line e (length pre) line st
                 = st\<lparr>log := log st @ [NoCandidates (JStr fallback)]\<rparr>)
     \<and> (\<forall>ps. candidate_line e line s ps \<and> (\<forall>part\<in>set ps. well_formed_part e part)
              \<and> can_open e (''./data/processed/'' @ fallback @ ''_retouched.jpg'')
              \<and> can_open e (''./data/processed/'' @ fallback @ ''_retouched.png'')
           \<longrightarrow> (\<exists>new. process_line e (length pre) line st =
                   st\<lparr>files := files st @ new,
                      success_count := success_count st + length new,
                      log := log st @ map (\<lambda>f. Saved (fst f)) new\<rparr>
                 \<and> list_all2 (\<lambda>part f. \<exists>m. image_part e part m (snd f)
                        \<and> fst f = ''./data/processed/'' @ fallback @ ''_retouched''
                                    @ (if sublist ''jpeg'' m then ''.jpg'' else ''.png''))
                      (filter has_inline_data ps) new))"
proof (intro conjI allI impI)
  show "parse_results e content =
           process_lines e (Suc (length pre)) post
             (process_line e (length pre) line (process_lines e 0 pre init_state))"
    by (rule parse_results_at [OF assms(1)])
next
  fix e2 :: env
  assume "loads e2 line = Some (JObj ((''custom_id'', JStr fallback) # s))
              \<and> b64decode e2 = b64decode e \<and> can_open e2 = can_open e"
  then have "line_body e (length pre) line st = line_body e2 (length pre) line st"
    using assms(2,3,4) by (intro line_body_fallback) simp_all
  then show "process_line e (length pre) line st = process_line e2 (length pre) line st"
    by (simp add: process_line_def)
next
  fix r err
  assume "map_of s ''response'' = Some (JObj r) \<and> map_of r ''error'' = Some err"
  then show "process_line e (length pre) line st
                 = st\<lparr>log := log st @ [ErrorFor (JStr fallback) err]\<rparr>"
    using assms(2,3,4) by (simp add: process_line_def line_body_def)
next
  assume "map_of s ''response'' = None
          \<or> (\<exists>r. map_of s ''response'' = Some (JObj r) \<and> map_of r ''error'' = None
                 \<and> map_of r ''candidates'' = None)"
  then show "process_line e (length pre) line st
                 = st\<lparr>log := log st @ [NoCandidates (JStr fallback)]\<rparr>"
    using assms(2,3,4) by (auto simp: process_line_def line_body_def)
next
  fix ps
  assume h: "candidate_line e line s ps \<and> (\<forall>part\<in>set ps. well_formed_part e part)
              \<and> can_open e (''./data/processed/'' @ fallback @ ''_retouched.jpg'')
              \<and> can_open e (''./data/processed/'' @ fallback @ ''_retouched.png'')"
  have g: "py_get (JObj s) ''custom_id'' (JStr (''image_'' @ show_nat (length pre))) = Inr (JStr fallback)"
    using assms(3,4) by simp
  have c: "can_open e (saved_path fallback ''image/jpeg'')" "can_open e (saved_path fallback ''image/png'')"
    using h assms(4) saved_path_fallback_two [of "length pre"] by simp_all
  obtain new where p: "process_line e (length pre) line st =
           st\<lparr>files := files st @ new,
              success_count := success_count st + length new,
              log := log st @ map (\<lambda>f. Saved (fst f)) new\<rparr>"
      and l: "list_all2 (\<lambda>part f. \<exists>m. image_part e part m (snd f) \<and> fst f = saved_path fallback m)
              (filter has_inline_data ps) new"
    using process_line_candidates [OF _ g _ c(1) c(2)] h by blast
  have "saved_path fallback m = ''./data/processed/'' @ fallback @ ''_retouched''
                                    @ (if sublist ''jpeg'' m then ''.jpg'' else ''.png'')" for m
    using saved_path_fallback [of "length pre" m] assms(4) by simp
  then have "list_all2 (\<lambda>part f. \<exists>m. image_part e part m (snd f)
                        \<and> fst f = ''./data/processed/'' @ fallback @ ''_retouched''
                                    @ (if sublist ''jpeg'' m then ''.jpg'' else ''.png''))
                      (filter has_inline_data ps) new"
    using l by simp
  then show "\<exists>new. process_line e (length pre) line st =
                   st\<lparr>files := files st @ new,
                      success_count := success_count st + length new,
                      log := log st @ map (\<lambda>f. Saved (fst f)) new\<rparr>
                 \<and> list_all2 (\<lambda>part f. \<exists>m. image_part e part m (snd f)
                        \<and> fst f = ''./data/processed/'' @ fallback @ ''_retouched''
                                    @ (if sublist ''jpeg'' m then ''.jpg'' else ''.png''))
                      (filter has_inline_data ps) new"
    using p by blast
qed

lemma example_split_three:
  "py_split CHR 0x0A (py_strip (line_a @ ''\<newline>'' @ line_err @ ''\<newline>'' @ line_noid @ ''\<newline>''))
     = [line_a, line_err] @ line_noid # []"
  by (simp add: line_a_def line_err_def line_noid_def py_strip_def is_space_def)

lemma example_candidate_noid:
  "candidate_line example_env line_noid
     [(''response'', JObj [(''candidates'', JArr [JObj [(''content'', JObj [(''parts'',
              JArr [JObj [(''inline_data'',
                JObj [(''mime_type'', JStr ''image/jpeg''), (''data'', JStr ''eW8='')])]])])]])])]
     [JObj [(''inline_data'', JObj [(''mime_type'', JStr ''image/jpeg''), (''data'', JStr ''eW8='')])]]"
  using example_loads(6) by (simp add: candidate_line_def line_noid_json_def)

theorem missing_custom_id_falls_back_to_index_witness:
  "files (parse_results example_env
       (line_a @ ''\<newline>'' @ line_err @ ''\<newline>'' @ line_noid @ ''\<newline>''))
     = [(''./data/processed/a_retouched.png'', ''hi''),
        (''./data/processed/image_2_retouched.jpg'', ''yo'')]
   \<and> success_count (parse_results example_env
       (line_a @ ''\<newline>'' @ line_err @ ''\<newline>'' @ line_noid @ ''\<newline>'')) = 2"
proof -
  let ?s = "[(''response'', JObj [(''candidates'', JArr [JObj [(''content'', JObj [(''parts'',
              JArr [JObj [(''inline_data'',
                JObj [(''mime_type'', JStr ''image/jpeg''), (''data'', JStr ''eW8='')])]])])]])])]"
  let ?ps = "[JObj [(''inline_data'', JObj [(''mime_type'', JStr ''image/jpeg''), (''data'', JStr ''eW8='')])]]"
  let ?st0 = "process_lines example_env 0 [line_a, line_err] init_state"
  have l: "loads example_env line_noid = Some (JObj ?s)"
    using example_loads(6) by (simp add: line_noid_json_def)
  have n: "map_of ?s ''custom_id'' = None" by simp
  have fb: "''image_2'' = ''image_'' @ show_nat (length [line_a, line_err])"
    by (simp add: show_nat.simps digit_char_def)
  note t = missing_custom_id_falls_back_to_index [OF example_split_three l n fb, of ?st0]
  have wf: "\<forall>part\<in>set ?ps. well_formed_part example_env part"
    by (simp add: example_env_def)
  have h: "candidate_line example_env line_noid ?s ?ps
      \<and> (\<forall>part\<in>set ?ps. well_formed_part example_env part)
      \<and> can_open example_env (''./data/processed/'' @ ''image_2'' @ ''_retouched.jpg'')
      \<and> can_open example_env (''./data/processed/'' @ ''image_2'' @ ''_retouched.png'')"
    using example_candidate_noid wf example_can_open by blast
  note e5 = t [THEN conjunct2, THEN conjunct2, THEN conjunct2, THEN conjunct2, rule_format, OF h]
  then obtain new where p: "process_line example_env (length [line_a, line_err]) line_noid ?st0 =
                   ?st0\<lparr>files := files ?st0 @ new,
                      success_count := success_count ?st0 + length new,
                      log := log ?st0 @ map (\<lambda>f. Saved (fst f)) new\<rparr>"
      and r: "list_all2 (\<lambda>part f. \<exists>m. image_part example_env part m (snd f)
                        \<and> fst f = ''./data/processed/'' @ ''image_2'' @ ''_retouched''
                                    @ (if sublist ''jpeg'' m then ''.jpg'' else ''.png''))
                      (filter has_inline_data ?ps) new"
    by blast
  have new: "new = [(''./data/processed/image_2_retouched.jpg'', ''yo'')]"
    using r by (auto simp: has_inline_data_def list_all2_Cons1 example_image_parts
        prod_eq_iff sublist_code)
  obtain s where s: "success_line example_env line_a s ''image/png'' ''hi''"
      "map_of s ''custom_id'' = Some (JStr ''retouch_a.jpg'')"
    using example_success(1) by blast
  obtain c where "?st0 = \<lparr>files = [(''./data/processed/a_retouched.png'', ''hi'')],
      success_count = 1,
      log = [Saved ''./data/processed/a_retouched.png'',
             ErrorFor c (JObj [(''code'', JInt 400), (''message'', JStr ''bad image'')])]\<rparr>"
    using process_line_success [OF s example_can_open, of 0 init_state]
      process_line_error [OF example_error, of 1 "process_line example_env 0 line_a init_state"]
    by (auto simp: init_state_def saved_path_examples)
  then show ?thesis using t [THEN conjunct1] p new by simp
qed

text \<open>
  Claim C10 as stated fails for a line that parses to a JSON value that is no object: it
  has no \<open>custom_id\<close>, \<open>get\<close> raises, no identifier is substituted and the line is
  recorded as failed.
\<close>

theorem non_object_line_counterexample:
  "loads example_env ''[]'' = Some (JArr [])
   \<and> py_split CHR 0x0A (py_strip ''[]'') = [''[]'']
   \<and> parse_results example_env ''[]''
       = \<lparr>files = [], success_count = 0, log = [Failed 0 AttributeError]\<rparr>"
  using example_loads(9)
  by (simp add: parse_results_def py_strip_def is_space_def process_line_def line_body_def
      init_state_def)

lemma strip_tag_roundtrip_iff:
  "py_replace ''retouch_'' [] (''retouch_'' @ f) = f \<longleftrightarrow> \<not> sublist ''retouch_'' f"
proof -
  have eq: "py_replace ''retouch_'' [] (''retouch_'' @ f) = py_replace ''retouch_'' [] f"
    using py_replace_at_prefix [of "''retouch_''" "[]" f] by simp
  show ?thesis
  proof (cases "sublist ''retouch_'' f")
    case True
    then have "length (py_replace ''retouch_'' [] f) < length f"
      by (intro py_replace_present) simp_all
    then show ?thesis using True eq by auto
  next
    case False
    then have "py_replace ''retouch_'' [] f = f"
      by (intro py_replace_absent) simp_all
    then show ?thesis using False eq by simp
  qed
qed

lemma custom_id_roundtrip:
  assumes "\<not> sublist ''retouch_'' f"
  shows "saved_path (''retouch_'' @ f) m =
     os_path_join OUTPUT_DIR
       (fst (splitext f) @ ''_retouched'' @ (if sublist ''jpeg'' m then ''.jpg'' else ''.png''))"
  using assms strip_tag_roundtrip_iff [of f] by (simp add: saved_path_def out_path_def)

text \<open>
  Claim C2. The builder prefixes \<open>retouch_\<close>; the parser removes every occurrence of
  \<open>retouch_\<close> (\<open>str.replace\<close>), not the prefix. For a file name that contains the tag the
  name written is not the name the claim gives: \<open>my_retouch_v2.jpg\<close> comes back as
  \<open>my_v2_retouched.png\<close>. The lemma before the theorem gives the names for which the
  round trip holds.
\<close>

theorem tag_inside_name_is_stripped:
  "py_get (request_line ''my_retouch_v2.jpg'' ''p'') ''custom_id'' JNull
     = Inr (JStr ''retouch_my_retouch_v2.jpg'')
   \<and> part_output (JStr ''retouch_my_retouch_v2.jpg'')
        (JObj [(''inline_data'', JObj [(''mime_type'', JStr ''image/png''), (''data'', JStr ''aGk='')])])
     = Inr (''./data/processed/my_v2_retouched.png'', JStr ''aGk='')
   \<and> os_path_join OUTPUT_DIR (fst (splitext ''my_retouch_v2.jpg'') @ ''_retouched'' @ ''.png'')
     = ''./data/processed/my_retouch_v2_retouched.png''"
proof -
  have "part_output (JStr ''retouch_my_retouch_v2.jpg'')
        (JObj [(''inline_data'', JObj [(''mime_type'', JStr ''image/png''), (''data'', JStr ''aGk='')])])
     = Inr (saved_path ''retouch_my_retouch_v2.jpg'' ''image/png'', JStr ''aGk='')"
    by (rule part_output_obj
        [where d = "[(''mime_type'', JStr ''image/png''), (''data'', JStr ''aGk='')]"]) simp_all
  moreover have "saved_path ''retouch_my_retouch_v2.jpg'' ''image/png''
      = ''./data/processed/my_v2_retouched.png''"
    by (simp add: saved_path_def out_path_def splitext_def splitext_loop.simps
      os_path_join_def OUTPUT_DIR_def Let_def sublist_code suffix_to_prefix)
  moreover have "os_path_join OUTPUT_DIR (fst (splitext ''my_retouch_v2.jpg'') @ ''_retouched'' @ ''.png'')
     = ''./data/processed/my_retouch_v2_retouched.png''"
    by (simp add: splitext_def splitext_loop.simps os_path_join_def OUTPUT_DIR_def Let_def
      suffix_to_prefix)
  ultimately show ?thesis by (simp add: request_line_def)
qed

section \<open>Properties of the batch submitter\<close>

subsection \<open>The text of a string\<close>

lemma hex_digits_table: "list_all (\<lambda>d. hex_value (hex_digit d) = Some d) [0..<16]"
  by code_simp

lemma hex_value_hex_digit: "d < 16 \<Longrightarrow> hex_value (hex_digit d) = Some d"
  using hex_digits_table by (simp add: list_all_iff)

lemma hex_digit_not_newline: "d < 16 \<Longrightarrow> hex_digit d \<noteq> CHR 0x0A"
proof -
  assume "d < 16"
  then have "hex_digit d \<in> set ''0123456789abcdef''"
    unfolding hex_digit_def by (intro nth_mem) simp
  moreover have "CHR 0x0A \<notin> set ''0123456789abcdef''" by simp
  ultimately show ?thesis by metis
qed

lemma of_char_div_16: "(of_char c :: nat) div 16 < 16"
proof -
  have "(of_char c :: nat) < 256" by simp
  then show ?thesis by (simp add: div_less_iff_less_mult)
qed

lemma escape_char_special:
  "escape_char (CHR 0x22) = [CHR 0x5C, CHR 0x22]"
  "escape_char (CHR 0x5C) = [CHR 0x5C, CHR 0x5C]"
  "escape_char (CHR 0x0A) = [CHR 0x5C, CHR ''n'']"
  "escape_char (CHR 0x0D) = [CHR 0x5C, CHR ''r'']"
  "escape_char (CHR 0x09) = [CHR 0x5C, CHR ''t'']"
  "escape_char (CHR 0x08) = [CHR 0x5C, CHR ''b'']"
  "escape_char (CHR 0x0C) = [CHR 0x5C, CHR ''f'']"
  by (simp_all add: escape_char_def)

lemma escape_char_other:
  assumes "c \<notin> set [CHR 0x22, CHR 0x5C, CHR 0x0A, CHR 0x0D, CHR 0x09, CHR 0x08, CHR 0x0C]"
  shows "escape_char c =
     (if 32 \<le> (of_char c :: nat) \<and> (of_char c :: nat) \<le> 126 then [c]
      else [CHR 0x5C, CHR ''u'', CHR ''0'', CHR ''0'',
            hex_digit (of_char c div 16), hex_digit (of_char c mod 16)])"
  using assms by (simp add: escape_char_def Let_def)

lemma escape_char_no_newline: "CHR 0x0A \<notin> set (escape_char c)"
proof (cases "c \<in> set [CHR 0x22, CHR 0x5C, CHR 0x0A, CHR 0x0D, CHR 0x09, CHR 0x08, CHR 0x0C]")
  case True
  then have "c = CHR 0x22 \<or> c = CHR 0x5C \<or> c = CHR 0x0A \<or> c = CHR 0x0D \<or> c = CHR 0x09
      \<or> c = CHR 0x08 \<or> c = CHR 0x0C"
    by simp
  then show ?thesis by (elim disjE) (simp_all add: escape_char_special)
next
  case False
  have "hex_digit (of_char c div 16) \<noteq> CHR 0x0A"
    by (rule hex_digit_not_newline [OF of_char_div_16])
  moreover have "hex_digit (of_char c mod 16) \<noteq> CHR 0x0A"
    by (rule hex_digit_not_newline) simp
  moreover have "c \<noteq> CHR 0x0A" using False by simp
  ultimately show ?thesis by (simp add: escape_char_other [OF False])
qed

lemma str_char_escape: "str_char (escape_char c) c"
proof (cases "c \<in> set [CHR 0x22, CHR 0x5C, CHR 0x0A, CHR 0x0D, CHR 0x09, CHR 0x08, CHR 0x0C]")
  case True
  then have "c = CHR 0x22 \<or> c = CHR 0x5C \<or> c = CHR 0x0A \<or> c = CHR 0x0D \<or> c = CHR 0x09
      \<or> c = CHR 0x08 \<or> c = CHR 0x0C"
    by simp
  then show ?thesis
    by (elim disjE) (simp_all add: escape_char_special str_char.intros)
next
  case False
  let ?n = "of_char c :: nat"
  show ?thesis
  proof (cases "32 \<le> ?n \<and> ?n \<le> 126")
    case True
    have "c \<noteq> CHR 0x22" "c \<noteq> CHR 0x5C" using False by simp_all
    then have "str_char [c] c" using True by (intro str_char.plain) simp_all
    then show ?thesis using True by (simp add: escape_char_other [OF False])
  next
    case outside: False
    have "str_char [CHR 0x5C, CHR ''u'', CHR ''0'', CHR ''0'',
            hex_digit (?n div 16), hex_digit (?n mod 16)] c"
    proof (rule str_char.unicode)
      show "hex_value CHR ''0'' = Some 0" by (simp add: hex_value_def)
      show "hex_value CHR ''0'' = Some 0" by (simp add: hex_value_def)
      show "hex_value (hex_digit (?n div 16)) = Some (?n div 16)"
        by (rule hex_value_hex_digit [OF of_char_div_16])
      show "hex_value (hex_digit (?n mod 16)) = Some (?n mod 16)"
        by (rule hex_value_hex_digit) simp
      show "of_char c = ((0 * 16 + 0) * 16 + ?n div 16) * 16 + ?n mod 16" by simp
    qed
    then show ?thesis by (simp add: escape_char_other [OF False] outside)
  qed
qed

lemma encode_str_no_newline: "CHR 0x0A \<notin> set (encode_str s)"
  using escape_char_no_newline by (simp add: encode_str_def)

lemma str_body_escape: "str_body (concat (map escape_char s)) s"
  by (induction s) (auto intro: str_body.intros str_char_escape)

lemma json_text_encode_str: "json_text (encode_str s) (JStr s)"
  unfolding encode_str_def
  by (rule json_text_elements_text_members_text.string) (rule str_body_escape)

subsection \<open>The text of a value\<close>

lemma show_int_no_newline: "CHR 0x0A \<notin> set (show_int n)"
proof -
  have "CHR 0x0A \<notin> set (show_nat k)" for k by (rule not_in_show_nat) simp
  then show ?thesis by (simp add: show_int_def)
qed

lemma join_avoids:
  assumes "c \<notin> set sep" and "\<forall>x\<in>set xs. c \<notin> set x"
  shows "c \<notin> set (join sep xs)"
  using assms(2) by (induction xs rule: induct_list012) (use assms(1) in auto)

lemma json_dumps_no_newline: "CHR 0x0A \<notin> set (json_dumps j)"
proof (induction j)
  case (JArr xs)
  have "CHR 0x0A \<notin> set (join '', '' (map json_dumps xs))"
    by (rule join_avoids) (use JArr in auto)
  then show ?case by simp
next
  case (JObj kvs)
  have "CHR 0x0A \<notin> set (join '', ''
      (map (\<lambda>kv. encode_str (fst kv) @ '': '' @ json_dumps (snd kv)) kvs))"
  proof (rule join_avoids)
    show "CHR 0x0A \<notin> set '', ''" by simp
    show "\<forall>x\<in>set (map (\<lambda>kv. encode_str (fst kv) @ '': '' @ json_dumps (snd kv)) kvs).
        CHR 0x0A \<notin> set x"
    proof
      fix x assume "x \<in> set (map (\<lambda>kv. encode_str (fst kv) @ '': '' @ json_dumps (snd kv)) kvs)"
      then obtain kv where kv: "kv \<in> set kvs"
          "x = encode_str (fst kv) @ '': '' @ json_dumps (snd kv)"
        by auto
      have "CHR 0x0A \<notin> set (json_dumps (snd kv))"
        using JObj [OF kv(1), of "snd kv"] by (cases kv) simp
      then show "CHR 0x0A \<notin> set x"
        using kv(2) encode_str_no_newline [of "fst kv"] by simp
    qed
  qed
  then show ?case by simp
qed (simp_all add: show_int_no_newline encode_str_no_newline)

lemma py_split_line:
  "sep \<notin> set l \<Longrightarrow> py_split sep (l @ sep # rest) = l # py_split sep rest"
  by (induction l) auto

lemma py_split_lines:
  assumes "\<forall>l\<in>set ls. sep \<notin> set l"
  shows "py_split sep (concat (map (\<lambda>l. l @ [sep]) ls)) = ls @ [[]]"
  using assms by (induction ls) (simp_all add: py_split_line)

lemma create_batch_file_lines:
  "py_split CHR 0x0A (create_batch_file image_names prompt)
     = map (\<lambda>img_name. json_dumps (request_line img_name prompt)) image_names @ [[]]"
proof -
  have "create_batch_file image_names prompt =
      concat (map (\<lambda>l. l @ [CHR 0x0A])
        (map (\<lambda>img_name. json_dumps (request_line img_name prompt)) image_names))"
    by (simp add: create_batch_file_def comp_def)
  then show ?thesis
    using py_split_lines [of "map (\<lambda>img_name. json_dumps (request_line img_name prompt)) image_names" "CHR 0x0A"]
      json_dumps_no_newline
    by simp
qed

lemma json_ws_simps: "json_ws []" "json_ws '' ''"
  by (simp_all add: json_ws_def)

lemma json_text_lead: "json_text t v \<Longrightarrow> json_ws a \<Longrightarrow> json_text (a @ t) v"
  using json_text_elements_text_members_text.space [of t v a "[]"] json_ws_simps(1) by simp

lemma elements_text_lead:
  assumes "elements_text b (x # xs)" and "json_ws a"
  shows "elements_text (a @ b) (x # xs)"
  using assms(1)
proof (cases rule: elements_text.cases)
  case one_element
  then show ?thesis
    using json_text_lead [OF _ assms(2)] by (auto intro: json_text_elements_text_members_text.one_element)
next
  case (more_elements t b' y ys)
  then show ?thesis
    using json_text_lead [OF _ assms(2), of t x]
      json_text_elements_text_members_text.more_elements [of "a @ t" x b' y ys]
    by simp
qed

lemma members_text_lead:
  assumes "members_text b (m # ms)" and "json_ws a"
  shows "members_text (a @ b) (m # ms)"
  using assms(1)
proof (cases rule: members_text.cases)
  case (one_member k key t v)
  then show ?thesis
    using json_text_lead [OF _ assms(2), of k "JStr key"]
      json_text_elements_text_members_text.one_member [of "a @ k" key t v]
    by simp
next
  case (more_members k key t v b' m' ms')
  then show ?thesis
    using json_text_lead [OF _ assms(2), of k "JStr key"]
      json_text_elements_text_members_text.more_members [of "a @ k" key t v b' m' ms']
    by simp
qed

lemma elements_text_join:
  assumes "\<forall>x\<in>set xs. json_text (json_dumps x) x"
  shows "elements_text (join '', '' (map json_dumps xs)) xs"
  using assms
proof (induction xs rule: induct_list012)
  case 1
  then show ?case by (simp add: json_text_elements_text_members_text.no_element json_ws_simps)
next
  case (2 x)
  then show ?case by (simp add: json_text_elements_text_members_text.one_element)
next
  case (3 x y ys)
  have "elements_text (join '', '' (map json_dumps (y # ys))) (y # ys)" using 3 by simp
  then have "elements_text ('' '' @ join '', '' (map json_dumps (y # ys))) (y # ys)"
    by (rule elements_text_lead) (rule json_ws_simps)
  moreover have "json_text (json_dumps x) x" using 3 by simp
  ultimately have "elements_text (json_dumps x @ '','' @ '' '' @ join '', '' (map json_dumps (y # ys)))
      (x # y # ys)"
    by (rule json_text_elements_text_members_text.more_elements [rotated])
  then show ?case by simp
qed

lemma members_text_join:
  assumes "\<forall>kv\<in>set kvs. json_text (json_dumps (snd kv)) (snd kv)"
  shows "members_text (join '', '' (map member_dumps kvs)) kvs"
  using assms
proof (induction kvs rule: induct_list012)
  case 1
  then show ?case by (simp add: json_text_elements_text_members_text.no_member json_ws_simps)
next
  case (2 kv)
  have "json_text ('' '' @ json_dumps (snd kv)) (snd kv)"
    using 2 by (intro json_text_lead) (simp_all add: json_ws_simps)
  then have "members_text (encode_str (fst kv) @ '':'' @ '' '' @ json_dumps (snd kv)) [(fst kv, snd kv)]"
    by (intro json_text_elements_text_members_text.one_member json_text_encode_str)
  then show ?case by (simp add: member_dumps_def)
next
  case (3 kv m ms)
  have "members_text (join '', '' (map member_dumps (m # ms))) (m # ms)" using 3 by simp
  then have r: "members_text ('' '' @ join '', '' (map member_dumps (m # ms))) (m # ms)"
    by (rule members_text_lead) (rule json_ws_simps)
  have v: "json_text ('' '' @ json_dumps (snd kv)) (snd kv)"
    using 3 by (intro json_text_lead) (simp_all add: json_ws_simps)
  have "members_text (encode_str (fst kv) @ '':'' @ ('' '' @ json_dumps (snd kv)) @ '','' @
      ('' '' @ join '', '' (map member_dumps (m # ms)))) ((fst kv, snd kv) # m # ms)"
    by (rule json_text_elements_text_members_text.more_members [OF json_text_encode_str v r])
  then show ?case by (simp add: member_dumps_def [of kv])
qed

lemma json_dumps_is_json_text: "json_text (json_dumps j) j"
proof (induction j)
  case (JArr xs)
  then have "elements_text (join '', '' (map json_dumps xs)) xs"
    by (intro elements_text_join) simp
  then show ?case
    using json_text_elements_text_members_text.array by simp
next
  case (JObj kvs)
  have "\<forall>kv\<in>set kvs. json_text (json_dumps (snd kv)) (snd kv)"
  proof
    fix kv assume kv: "kv \<in> set kvs"
    have "snd kv \<in> Basic_BNFs.snds kv" by (cases kv) simp
    then show "json_text (json_dumps (snd kv)) (snd kv)"
      using kv by (rule JObj [rotated])
  qed
  then have "members_text (join '', '' (map member_dumps kvs)) kvs"
    by (rule members_text_join)
  then have "json_text (''{'' @ join '', '' (map member_dumps kvs) @ ''}'') (JObj kvs)"
    by (rule json_text_elements_text_members_text.object)
  moreover have "map member_dumps kvs = map (\<lambda>kv. encode_str (fst kv) @ '': '' @ json_dumps (snd kv)) kvs"
    by (simp add: member_dumps_def)
  ultimately show ?case by simp
qed (auto intro: json_text_elements_text_members_text.intros json_text_encode_str)

subsection \<open>The manifest\<close>

lemma request_line_matches_schema: "matches_request_schema prompt (request_line img_name prompt)"
  unfolding matches_request_schema_def request_line_def by blast

lemma request_line_custom_id:
  "py_get (request_line img_name prompt) ''custom_id'' JNull = Inr (JStr (''retouch_'' @ img_name))"
  by (simp add: request_line_def)

lemma custom_ids_distinct:
  "distinct image_names \<Longrightarrow>
   distinct (map (\<lambda>img_name. py_get (request_line img_name prompt) ''custom_id'' JNull) image_names)"
  by (simp add: request_line_custom_id distinct_map inj_on_def)

text \<open>
  Claim C1. The manifest written for a list of file names and one instruction: split at
  the newlines it is the \<open>json.dumps\<close> of one request per file name, in order, and an
  empty rest after the last newline. Every such line is a JSON text that denotes the
  request, the request has the fields of the schema with the instruction as its text, its
  \<open>custom_id\<close> is \<open>retouch_\<close> followed by the file name, the file name is what follows
  these eight characters, and distinct file names give distinct identifiers.
\<close>

theorem manifest_has_one_request_line_per_file:
  "py_split CHR 0x0A (create_batch_file image_names prompt)
     = map (\<lambda>img_name. json_dumps (request_line img_name prompt)) image_names @ [[]]
   \<and> (\<forall>img_name\<in>set image_names.
         json_text (json_dumps (request_line img_name prompt)) (request_line img_name prompt)
         \<and> matches_request_schema prompt (request_line img_name prompt)
         \<and> py_get (request_line img_name prompt) ''custom_id'' JNull
             = Inr (JStr (''retouch_'' @ img_name))
         \<and> drop (length ''retouch_'') (''retouch_'' @ img_name) = img_name)
   \<and> (distinct image_names \<longrightarrow>
         distinct (map (\<lambda>img_name. py_get (request_line img_name prompt) ''custom_id'' JNull)
                       image_names))"
  using create_batch_file_lines [of image_names prompt] json_dumps_is_json_text
    request_line_matches_schema request_line_custom_id custom_ids_distinct
  by simp

theorem manifest_has_one_request_line_per_file_witness:
  "py_split CHR 0x0A (create_batch_file [''a.jpg'', ''b.png''] ''p'')
     = [json_dumps (request_line ''a.jpg'' ''p''), json_dumps (request_line ''b.png'' ''p''), []]
   \<and> json_text (json_dumps (request_line ''b.png'' ''p'')) (request_line ''b.png'' ''p'')
   \<and> matches_request_schema ''p'' (request_line ''b.png'' ''p'')
   \<and> py_get (request_line ''b.png'' ''p'') ''custom_id'' JNull = Inr (JStr ''retouch_b.png'')
   \<and> distinct [py_get (request_line ''a.jpg'' ''p'') ''custom_id'' JNull,
                py_get (request_line ''b.png'' ''p'') ''custom_id'' JNull]"
  using manifest_has_one_request_line_per_file [of "[''a.jpg'', ''b.png'']" "''p''"]
  by simp

text \<open>
  Claim C6. With no file name the builder writes an empty manifest. The caller does not
  get that far: when no file of the listing is accepted, the script makes no upload, writes
  no manifest and submits no job.
\<close>

theorem empty_input_is_a_no_op:
  "create_batch_file [] prompt = []
   \<and> (upload_files listing = [] \<longrightarrow> batch_main listing prompt = [])"
  by (simp add: create_batch_file_def batch_main_def upload_images_to_gcs_def)

theorem empty_input_is_a_no_op_witness:
  "upload_files [''notes.txt'', ''clip.mp4''] = []
   \<and> batch_main [''notes.txt'', ''clip.mp4''] ''p'' = []"
proof -
  have "upload_files [''notes.txt'', ''clip.mp4''] = []"
    by (simp add: upload_files_def upload_accepts_def endswith_any_def py_lower_def
        lower_char_def suffix_to_prefix)
  then show ?thesis
    using empty_input_is_a_no_op [of "''p''" "[''notes.txt'', ''clip.mp4'']"] by simp
qed

section \<open>Properties of the synchronous entry points\<close>

lemma py_split_pieces: "x \<in> set (py_split sep s) \<Longrightarrow> sep \<notin> set x"
proof (induction s arbitrary: x)
  case Nil
  then show ?case by simp
next
  case (Cons c cs)
  show ?case
  proof (cases "c = sep")
    case True
    then show ?thesis using Cons by auto
  next
    case False
    obtain w ws where w: "py_split sep cs = w # ws" by (cases "py_split sep cs") (cases cs; simp split: if_splits list.splits)+
    then have "sep \<notin> set w" "\<forall>y\<in>set ws. sep \<notin> set y" using Cons.IH by simp_all
    then show ?thesis using Cons.prems False w by auto
  qed
qed

lemma py_split_absent: "sep \<notin> set s \<Longrightarrow> py_split sep s = [s]"
  by (induction s) auto

lemma path_parts_tail_clean:
  "x \<in> set (drop (Suc k) (path_parts p)) \<Longrightarrow> clean_segment x"
proof -
  assume x: "x \<in> set (drop (Suc k) (path_parts p))"
  obtain root rel where r: "splitroot p = (root, rel)" by (cases "splitroot p")
  let ?tail = "filter (\<lambda>x. x \<noteq> [] \<and> x \<noteq> ''.'') (py_split CHR ''/'' rel)"
  have "set (drop (Suc k) (path_parts p)) \<subseteq> set ?tail"
  proof (cases "p = []")
    case True
    then show ?thesis by (simp add: path_parts_def)
  next
    case False
    show ?thesis
    proof (cases "root = []")
      case True
      then have "path_parts p = ?tail" using False r by (simp add: path_parts_def)
      then show ?thesis using set_drop_subset by metis
    next
      case nonempty: False
      then have "path_parts p = root # ?tail" using False r by (simp add: path_parts_def)
      then show ?thesis using set_drop_subset [of k ?tail] by simp
    qed
  qed
  then have "x \<in> set ?tail" using x by blast
  then show ?thesis using py_split_pieces [of x "CHR ''/''" rel] by (simp add: clean_segment_def)
qed

lemma path_parts_clean: "clean_segment seg \<Longrightarrow> path_parts seg = [seg]"
proof -
  assume c: "clean_segment seg"
  then obtain a as where s: "seg = a # as" "a \<noteq> CHR ''/''"
    by (cases seg) (auto simp: clean_segment_def)
  then have "splitroot seg = ([], seg)" by (simp add: splitroot_def)
  moreover have "py_split CHR ''/'' seg = [seg]"
    using c by (intro py_split_absent) (simp add: clean_segment_def)
  ultimately show ?thesis using c by (simp add: path_parts_def clean_segment_def)
qed

lemma joinpath_clean:
  "\<forall>seg\<in>set segs. clean_segment seg \<Longrightarrow> joinpath base segs = base @ segs"
proof (induction segs arbitrary: base)
  case Nil
  then show ?case by (simp add: joinpath_def)
next
  case (Cons seg segs)
  have c: "clean_segment seg" using Cons.prems by simp
  then have "\<not> prefix ''/'' seg" by (cases seg) (auto simp: clean_segment_def)
  moreover have "joinpath (base @ [seg]) segs = (base @ [seg]) @ segs"
    using Cons by simp
  ultimately show ?case using path_parts_clean [OF c] by (simp add: joinpath_def)
qed

lemma drop_after_index:
  "x \<in> set xs \<Longrightarrow> drop (Suc (index_of x xs)) xs = tl (dropWhile (\<lambda>y. y \<noteq> x) xs)"
  by (induction xs) auto

lemma rfind_last: "c \<notin> set ys \<Longrightarrow> rfind c (xs @ c # ys) = int (length xs)"
  by (induction xs) (simp_all add: rfind_absent Let_def)

lemma path_stem_of_image:
  assumes "ext \<in> set [''.jpg'', ''.png'', ''.jpeg'', ''.JPG'', ''.PNG'', ''.JPEG'']"
    and "stem \<noteq> []" and "CHR ''/'' \<notin> set stem"
  shows "path_stem (stem @ ext) = stem"
proof -
  obtain letters where e: "ext = CHR ''.'' # letters" "CHR ''.'' \<notin> set letters"
      "CHR ''/'' \<notin> set letters" "2 \<le> length letters"
    using assms(1) by auto
  have "clean_segment (stem @ ext)"
    using assms(2,3) e by (cases stem) (auto simp: clean_segment_def)
  then have "path_parts (stem @ ext) = [stem @ ext]" by (rule path_parts_clean)
  moreover have "\<not> prefix ''/'' (stem @ ext)" using assms(2,3) by (cases stem) auto
  ultimately have n: "path_name (stem @ ext) = stem @ ext" by (simp add: path_name_def)
  have r: "rfind CHR ''.'' (stem @ ext) = int (length stem)"
    using e rfind_last [of "CHR ''.''" letters stem] by simp
  have "letters \<noteq> []" using e(4) by auto
  then show ?thesis using n r e assms(2) by (simp add: path_stem_def Let_def)
qed

text \<open>
  Claim C9. In single\_retouch.py the output directory is the processed directory followed
  by the segments of the input directory after its first segment \<open>raw\<close>, and the processed
  directory itself when no segment is \<open>raw\<close>. For an image name, a stem followed by one of
  the accepted extensions, the file is written there as \<open>retouched_\<close>, the stem and
  \<open>.png\<close>; main.py writes to the processed directory under \<open>retouched_\<close> and the whole
  name.
\<close>

theorem output_directory_mirrors_raw_subdirectories:
  "(''raw'' \<in> set (path_parts raw_dir) \<longrightarrow>
      output_dir raw_dir processed_dir
        = path_parts processed_dir @ tl (dropWhile (\<lambda>seg. seg \<noteq> ''raw'') (path_parts raw_dir)))
   \<and> (''raw'' \<notin> set (path_parts raw_dir) \<longrightarrow>
      output_dir raw_dir processed_dir = path_parts processed_dir)
   \<and> (\<forall>ext\<in>set [''.jpg'', ''.png'', ''.jpeg'', ''.JPG'', ''.PNG'', ''.JPEG''].
        stem \<noteq> [] \<and> CHR ''/'' \<notin> set stem \<longrightarrow>
          single_output_path raw_dir processed_dir (stem @ ext)
            = os_path_join (path_str (output_dir raw_dir processed_dir))
                (''retouched_'' @ stem @ ''.png'')
          \<and> main_output_path processed_dir (stem @ ext)
            = os_path_join processed_dir (''retouched_'' @ stem @ ext))"
proof (intro conjI impI ballI)
  assume raw: "''raw'' \<in> set (path_parts raw_dir)"
  let ?sub = "drop (index_of ''raw'' (path_parts raw_dir) + 1) (path_parts raw_dir)"
  have "\<forall>seg\<in>set ?sub. clean_segment seg" using path_parts_tail_clean by simp
  then have "joinpath (path_parts processed_dir) ?sub = path_parts processed_dir @ ?sub"
    by (rule joinpath_clean)
  moreover have "?sub = tl (dropWhile (\<lambda>seg. seg \<noteq> ''raw'') (path_parts raw_dir))"
    using drop_after_index [OF raw] by simp
  ultimately show "output_dir raw_dir processed_dir
        = path_parts processed_dir @ tl (dropWhile (\<lambda>seg. seg \<noteq> ''raw'') (path_parts raw_dir))"
    using raw by (simp add: output_dir_def Let_def)
next
  assume "''raw'' \<notin> set (path_parts raw_dir)"
  then show "output_dir raw_dir processed_dir = path_parts processed_dir"
    by (simp add: output_dir_def Let_def)
next
  fix ext
  assume "ext \<in> set [''.jpg'', ''.png'', ''.jpeg'', ''.JPG'', ''.PNG'', ''.JPEG'']"
    and "stem \<noteq> [] \<and> CHR ''/'' \<notin> set stem"
  then show "single_output_path raw_dir processed_dir (stem @ ext)
            = os_path_join (path_str (output_dir raw_dir processed_dir))
                (''retouched_'' @ stem @ ''.png'')"
    using path_stem_of_image [of ext stem] by (simp add: single_output_path_def)
next
  fix ext
  show "main_output_path processed_dir (stem @ ext)
            = os_path_join processed_dir (''retouched_'' @ stem @ ext)"
    by (simp add: main_output_path_def)
qed

theorem output_directory_mirrors_raw_subdirectories_witness:
  "output_dir ''./data/raw/piano_full'' ''./data/processed'' = [''data'', ''processed'', ''piano_full'']
   \<and> output_dir ''./data/unsorted'' ''./data/processed'' = [''data'', ''processed'']
   \<and> single_output_path ''./data/raw/piano_full'' ''./data/processed'' ''IMG_1.JPG''
       = ''data/processed/piano_full/retouched_IMG_1.png''
   \<and> main_output_path ''./data/processed'' ''IMG_1.JPG'' = ''./data/processed/retouched_IMG_1.JPG''"
proof -
  have p: "path_parts ''./data/raw/piano_full'' = [''data'', ''raw'', ''piano_full'']"
      "path_parts ''./data/unsorted'' = [''data'', ''unsorted'']"
      "path_parts ''./data/processed'' = [''data'', ''processed'']"
    by (simp_all add: path_parts_def splitroot_def)
  show ?thesis
    using output_directory_mirrors_raw_subdirectories
      [of "''./data/raw/piano_full''" "''./data/processed''" "''IMG_1''"]
      output_directory_mirrors_raw_subdirectories
      [of "''./data/unsorted''" "''./data/processed''" "''IMG_1''"]
    by (simp add: p path_str_def os_path_join_def suffix_to_prefix)
qed

end
